theory Spec2Isabelle
  imports Complex_Main
begin

section \<open>Numbers\<close>

text \<open>
  The TypeScript sources compute with the type \<open>number\<close>.  Every numeric quantity is
  embedded as a \<^typ>\<open>real\<close>, so all statements below are statements of exact
  arithmetic; counters are \<^typ>\<open>nat\<close> and the two integer-valued configuration
  entries (\<open>minSamples\<close>, \<open>maxActions\<close>) are \<^typ>\<open>int\<close>.  The JavaScript idiom
  \<open>x || d\<close> on a number \<open>x\<close> yields \<open>d\<close> exactly when \<open>x\<close> is zero (there is no NaN
  among the reals).
\<close>

definition js_or :: "real \<Rightarrow> real \<Rightarrow> real" where
  "js_or x d = (if x = 0 then d else x)"

section \<open>surprise-filter.ts: OnlineStats\<close>

record OnlineStats =
  os_count :: nat
  os_mean :: real
  os_m2 :: real

definition OnlineStats_new :: OnlineStats where
  "OnlineStats_new = \<lparr>os_count = 0, os_mean = 0, os_m2 = 0\<rparr>"

definition OnlineStats_update :: "OnlineStats \<Rightarrow> real \<Rightarrow> OnlineStats" where
  "OnlineStats_update s v =
     (let c = os_count s + 1;
          delta = v - os_mean s;
          mn = os_mean s + delta / real c;
          delta2 = v - mn
      in \<lparr>os_count = c, os_mean = mn, os_m2 = os_m2 s + delta * delta2\<rparr>)"

definition getMean :: "OnlineStats \<Rightarrow> real" where
  "getMean s = os_mean s"

definition getVariance :: "OnlineStats \<Rightarrow> real" where
  "getVariance s = (if os_count s > 1 then os_m2 s / (real (os_count s) - 1) else 0)"

definition getStdDev :: "OnlineStats \<Rightarrow> real" where
  "getStdDev s = sqrt (getVariance s)"

definition getCount :: "OnlineStats \<Rightarrow> nat" where
  "getCount s = os_count s"

text \<open>Feeding a finite sequence of values, in order, to a fresh accumulator.\<close>

definition OnlineStats_feed :: "real list \<Rightarrow> OnlineStats" where
  "OnlineStats_feed xs = foldl OnlineStats_update OnlineStats_new xs"

text \<open>
  The direct two-pass computation the specification compares against: the arithmetic mean,
  and the unbiased sample variance around that mean.
\<close>

definition two_pass_mean :: "real list \<Rightarrow> real" where
  "two_pass_mean xs = sum_list xs / real (length xs)"

definition two_pass_variance :: "real list \<Rightarrow> real" where
  "two_pass_variance xs =
     (\<Sum>x\<leftarrow>xs. (x - two_pass_mean xs)\<^sup>2) / (real (length xs) - 1)"

section \<open>surprise-filter.ts: AdaptiveThreshold\<close>

record AdaptiveThreshold =
  at_mean :: real
  at_variance :: real
  at_initialized :: bool
  at_alpha :: real
  at_k :: real
  at_initial :: real

definition AdaptiveThreshold_new :: "real \<Rightarrow> real \<Rightarrow> real \<Rightarrow> AdaptiveThreshold" where
  "AdaptiveThreshold_new alpha k initial =
     \<lparr>at_mean = initial, at_variance = 1, at_initialized = False,
      at_alpha = alpha, at_k = k, at_initial = initial\<rparr>"

definition AdaptiveThreshold_get :: "AdaptiveThreshold \<Rightarrow> real" where
  "AdaptiveThreshold_get t = at_mean t + at_k t * sqrt (at_variance t)"

definition AdaptiveThreshold_update :: "AdaptiveThreshold \<Rightarrow> real \<Rightarrow> real \<times> AdaptiveThreshold" where
  "AdaptiveThreshold_update t surprise =
     (let t' =
        (if \<not> at_initialized t
         then t\<lparr>at_mean := surprise, at_variance := 0, at_initialized := True\<rparr>
         else
           (let delta = surprise - at_mean t
            in t\<lparr>at_mean := at_alpha t * surprise + (1 - at_alpha t) * at_mean t,
                 at_variance := at_alpha t * delta * delta + (1 - at_alpha t) * at_variance t\<rparr>))
      in (AdaptiveThreshold_get t', t'))"

section \<open>surprise-filter.ts: ExponentialPredictor\<close>

record ExponentialPredictor =
  ep_level :: "real option"
  ep_trend :: real
  ep_alpha :: real
  ep_beta :: real

definition ExponentialPredictor_new :: "real \<Rightarrow> real \<Rightarrow> ExponentialPredictor" where
  "ExponentialPredictor_new alpha beta =
     \<lparr>ep_level = None, ep_trend = 0, ep_alpha = alpha, ep_beta = beta\<rparr>"

definition ExponentialPredictor_predict :: "ExponentialPredictor \<Rightarrow> real option" where
  "ExponentialPredictor_predict p =
     (case ep_level p of None \<Rightarrow> None | Some l \<Rightarrow> Some (l + ep_trend p))"

definition ExponentialPredictor_update :: "ExponentialPredictor \<Rightarrow> real \<Rightarrow> real \<times> ExponentialPredictor" where
  "ExponentialPredictor_update p v =
     (case ep_level p of
        None \<Rightarrow> (0, p\<lparr>ep_level := Some v, ep_trend := 0\<rparr>)
      | Some l \<Rightarrow>
          (let prediction = l + ep_trend p;
               err = v - prediction;
               prevLevel = l;
               level' = ep_alpha p * v + (1 - ep_alpha p) * (l + ep_trend p);
               trend' = ep_beta p * (level' - prevLevel) + (1 - ep_beta p) * ep_trend p
           in (\<bar>err\<bar>, p\<lparr>ep_level := Some level', ep_trend := trend'\<rparr>)))"

section \<open>surprise-filter.ts: SurpriseCalculator\<close>

record SurpriseResult =
  sr_surprise :: real
  sr_threshold :: real
  sr_keep :: bool
  sr_prediction :: "real option"
  sr_zscore :: real

record SurpriseCalculator =
  sc_predictor :: ExponentialPredictor
  sc_threshold :: AdaptiveThreshold
  sc_stats :: OnlineStats
  sc_errorStats :: OnlineStats

text \<open>
  The constructor passes only \<open>alpha\<close> to the predictor (whose \<open>beta\<close> defaults to 0.1) and
  \<open>(0.1, thresholdK)\<close> to the threshold (whose \<open>initial\<close> defaults to 1.0).
\<close>

definition SurpriseCalculator_new :: "real \<Rightarrow> real \<Rightarrow> SurpriseCalculator" where
  "SurpriseCalculator_new alpha thresholdK =
     \<lparr>sc_predictor = ExponentialPredictor_new alpha (1/10),
      sc_threshold = AdaptiveThreshold_new (1/10) thresholdK 1,
      sc_stats = OnlineStats_new,
      sc_errorStats = OnlineStats_new\<rparr>"

definition calculate :: "SurpriseCalculator \<Rightarrow> real \<Rightarrow> SurpriseResult \<times> SurpriseCalculator" where
  "calculate c v =
     (let prediction = ExponentialPredictor_predict (sc_predictor c);
          (err, predictor') = ExponentialPredictor_update (sc_predictor c) v;
          errorStats' = OnlineStats_update (sc_errorStats c) err;
          stats' = OnlineStats_update (sc_stats c) v;
          errorMean = getMean errorStats';
          errorStd = js_or (getStdDev errorStats') 1;
          zscore = (err - errorMean) / errorStd;
          surprise = (1/2) * zscore * zscore;
          (currentThreshold, threshold') = AdaptiveThreshold_update (sc_threshold c) surprise
      in (\<lparr>sr_surprise = surprise, sr_threshold = currentThreshold,
            sr_keep = (surprise > currentThreshold), sr_prediction = prediction,
            sr_zscore = zscore\<rparr>,
          \<lparr>sc_predictor = predictor', sc_threshold = threshold',
            sc_stats = stats', sc_errorStats = errorStats'\<rparr>))"

text \<open>
  The z-score as the specification words it, for comparison with \<open>calculate\<close>: the divisor
  is \<open>max(stdDev, 1)\<close>.
\<close>

definition spec_zscore :: "real \<Rightarrow> OnlineStats \<Rightarrow> real" where
  "spec_zscore err es = (err - getMean es) / max (getStdDev es) 1"

section \<open>health-record.ts: the discriminated union HealthRecord\<close>

text \<open>
  One constructor per member of the union, carrying the numeric fields of that member
  which the filter can read (\<open>value\<close>; \<open>systolic\<close> and \<open>diastolic\<close>; \<open>duration\<close>).
\<close>

datatype HealthRecord =
    HeartRate real
  | BloodPressure real real
  | BloodOxygen real
  | BodyTemperature real
  | RespiratoryRate real
  | HRV
  | Steps real
  | Distance real
  | Calories real
  | Workout real
  | SleepSession real
  | Weight real
  | Height real
  | BodyComposition
  | LabResult
  | NutritionEntry

fun record_type :: "HealthRecord \<Rightarrow> string" where
  "record_type (HeartRate v) = ''heart_rate''"
| "record_type (BloodPressure s d) = ''blood_pressure''"
| "record_type (BloodOxygen v) = ''blood_oxygen''"
| "record_type (BodyTemperature v) = ''body_temperature''"
| "record_type (RespiratoryRate v) = ''respiratory_rate''"
| "record_type HRV = ''hrv''"
| "record_type (Steps v) = ''steps''"
| "record_type (Distance v) = ''distance''"
| "record_type (Calories v) = ''calories''"
| "record_type (Workout d) = ''workout''"
| "record_type (SleepSession d) = ''sleep''"
| "record_type (Weight v) = ''weight''"
| "record_type (Height v) = ''height''"
| "record_type BodyComposition = ''body_composition''"
| "record_type LabResult = ''lab_result''"
| "record_type NutritionEntry = ''nutrition''"

section \<open>surprise-filter.ts: SurpriseFilter\<close>

record FilterConfig =
  fc_thresholdK :: real
  fc_minSamples :: int
  fc_metrics :: "string list"

text \<open>The constructor's defaults, overridden by whichever entries the caller supplies.\<close>

definition FilterConfig_merge :: "real option \<Rightarrow> int option \<Rightarrow> string list option \<Rightarrow> FilterConfig" where
  "FilterConfig_merge k n ms =
     \<lparr>fc_thresholdK = (case k of None \<Rightarrow> 2 | Some k' \<Rightarrow> k'),
      fc_minSamples = (case n of None \<Rightarrow> 10 | Some n' \<Rightarrow> n'),
      fc_metrics = (case ms of
                      None \<Rightarrow> [''heart_rate'', ''steps'', ''sleep_duration'', ''calories'']
                    | Some ms' \<Rightarrow> ms')\<rparr>"

record FilterResult =
  fr_keep :: bool
  fr_totalSurprise :: real
  fr_metricSurprises :: "string \<rightharpoonup> SurpriseResult"
  fr_reason :: string

record SurpriseFilter =
  sf_calculators :: "string \<rightharpoonup> SurpriseCalculator"
  sf_sampleCount :: nat
  sf_config :: FilterConfig

definition SurpriseFilter_new :: "FilterConfig \<Rightarrow> SurpriseFilter" where
  "SurpriseFilter_new cfg =
     \<lparr>sf_calculators =
        fold (\<lambda>metric cs. cs(metric \<mapsto> SurpriseCalculator_new (3/10) (fc_thresholdK cfg)))
          (fc_metrics cfg) Map.empty,
      sf_sampleCount = 0,
      sf_config = cfg\<rparr>"

fun extractValue :: "HealthRecord \<Rightarrow> real option" where
  "extractValue (HeartRate v) = Some v"
| "extractValue (Steps v) = Some v"
| "extractValue (Calories v) = Some v"
| "extractValue (SleepSession d) = Some d"
| "extractValue (Weight v) = Some v"
| "extractValue (BloodPressure s d) = Some s"
| "extractValue (BloodOxygen v) = Some v"
| "extractValue _ = None"

text \<open>The type tags for which \<open>extractValue\<close> has a \<open>case\<close>.\<close>

definition supported_types :: "string set" where
  "supported_types =
     {''heart_rate'', ''steps'', ''calories'', ''sleep'', ''weight'', ''blood_pressure'',
      ''blood_oxygen''}"

definition filter_record :: "SurpriseFilter \<Rightarrow> HealthRecord \<Rightarrow> FilterResult \<times> SurpriseFilter" where
  "filter_record f r =
     (let f1 = f\<lparr>sf_sampleCount := sf_sampleCount f + 1\<rparr>
      in if int (sf_sampleCount f1) < fc_minSamples (sf_config f1)
         then (\<lparr>fr_keep = True, fr_totalSurprise = 0, fr_metricSurprises = Map.empty,
                 fr_reason = ''warmup''\<rparr>, f1)
         else
           (case extractValue r of
              None \<Rightarrow>
                (\<lparr>fr_keep = True, fr_totalSurprise = 0, fr_metricSurprises = Map.empty,
                   fr_reason = ''unsupported_type''\<rparr>, f1)
            | Some v \<Rightarrow>
                (let calculator =
                       (case sf_calculators f1 (record_type r) of
                          None \<Rightarrow> SurpriseCalculator_new (3/10) (fc_thresholdK (sf_config f1))
                        | Some c \<Rightarrow> c);
                     (result, calculator') = calculate calculator v
                 in (\<lparr>fr_keep = sr_keep result, fr_totalSurprise = sr_surprise result,
                       fr_metricSurprises = [record_type r \<mapsto> result],
                       fr_reason = (if sr_keep result then ''surprising'' else ''expected'')\<rparr>,
                     f1\<lparr>sf_calculators := (sf_calculators f1)(record_type r \<mapsto> calculator')\<rparr>))))"

text \<open>
  Successive calls of \<open>filter\<close> on one filter instance, as \<open>filterBatch\<close> issues them: the
  results in call order, and the filter after the last call.
\<close>

fun filter_calls :: "SurpriseFilter \<Rightarrow> HealthRecord list \<Rightarrow> FilterResult list \<times> SurpriseFilter" where
  "filter_calls f [] = ([], f)"
| "filter_calls f (r # rs) =
     (let (res, f') = filter_record f r;
          (ress, f'') = filter_calls f' rs
      in (res # ress, f''))"

section \<open>Continuous dynamics engine: vector utilities\<close>

definition vectorAdd :: "real list \<Rightarrow> real list \<Rightarrow> real list" where
  "vectorAdd a b = map (\<lambda>i. a ! i + b ! i) [0..<length a]"

definition vectorMultiply :: "real list \<Rightarrow> real list \<Rightarrow> real list" where
  "vectorMultiply a b = map (\<lambda>i. a ! i * b ! i) [0..<length a]"

definition zeros :: "nat \<Rightarrow> real list" where
  "zeros n = replicate n 0"

section \<open>Continuous dynamics engine: CfCCell\<close>

record CfCConfig =
  cc_stateDim :: nat
  cc_tauMin :: real
  cc_tauMax :: real
  cc_decayDefault :: real

definition DEFAULT_CFC_CONFIG :: CfCConfig where
  "DEFAULT_CFC_CONFIG =
     \<lparr>cc_stateDim = 32, cc_tauMin = 5/100, cc_tauMax = 86400, cc_decayDefault = 99/100\<rparr>"

text \<open>The defaults overridden by whichever entries of the partial configuration are given.\<close>

definition CfCConfig_merge :: "nat option \<Rightarrow> real option \<Rightarrow> real option \<Rightarrow> real option \<Rightarrow> CfCConfig" where
  "CfCConfig_merge sd tmin tmax dd =
     \<lparr>cc_stateDim = (case sd of None \<Rightarrow> cc_stateDim DEFAULT_CFC_CONFIG | Some x \<Rightarrow> x),
      cc_tauMin = (case tmin of None \<Rightarrow> cc_tauMin DEFAULT_CFC_CONFIG | Some x \<Rightarrow> x),
      cc_tauMax = (case tmax of None \<Rightarrow> cc_tauMax DEFAULT_CFC_CONFIG | Some x \<Rightarrow> x),
      cc_decayDefault = (case dd of None \<Rightarrow> cc_decayDefault DEFAULT_CFC_CONFIG | Some x \<Rightarrow> x)\<rparr>"

record CfCCell =
  cell_config :: CfCConfig
  cell_state :: "real list"
  cell_tau :: "real list"
  cell_equilibrium :: "real list"
  cell_lastTimestamp :: "real option"

definition CfCCell_new :: "CfCConfig \<Rightarrow> CfCCell" where
  "CfCCell_new cfg =
     \<lparr>cell_config = cfg,
      cell_state = zeros (cc_stateDim cfg),
      cell_tau = replicate (cc_stateDim cfg) ((cc_tauMin cfg + cc_tauMax cfg) / 2),
      cell_equilibrium = zeros (cc_stateDim cfg),
      cell_lastTimestamp = None\<rparr>"

definition updateEquilibrium :: "CfCCell \<Rightarrow> real list \<Rightarrow> CfCCell" where
  "updateEquilibrium c observation =
     (let alpha = 3/10
      in c\<lparr>cell_equilibrium :=
           fold (\<lambda>i eq. eq[i := alpha * observation ! i + (1 - alpha) * eq ! i])
             [0..<min (length observation) (cc_stateDim (cell_config c))]
             (cell_equilibrium c)\<rparr>)"

definition targetTau :: "CfCConfig \<Rightarrow> real \<Rightarrow> real \<Rightarrow> real" where
  "targetTau cfg obs st =
     (let diff = \<bar>obs - st\<bar>;
          normalizedDiff = tanh diff
      in cc_tauMax cfg - normalizedDiff * (cc_tauMax cfg - cc_tauMin cfg))"

definition updateTau :: "CfCCell \<Rightarrow> real list \<Rightarrow> CfCCell" where
  "updateTau c observation =
     c\<lparr>cell_tau :=
         fold (\<lambda>i tau. tau[i := (1/10) * targetTau (cell_config c) (observation ! i)
                                   (cell_state c ! i) + (9/10) * tau ! i])
           [0..<min (length observation) (cc_stateDim (cell_config c))]
           (cell_tau c)\<rparr>"

text \<open>The elapsed time \<open>step\<close> uses: 0.1 on the first call, else the gap clamped to 1e-4.\<close>

definition step_dt :: "CfCCell \<Rightarrow> real \<Rightarrow> real" where
  "step_dt c timestamp =
     (case cell_lastTimestamp c of
        None \<Rightarrow> 1/10
      | Some l \<Rightarrow> max (timestamp - l) (1/10000))"

text \<open>The elapsed time \<open>predict\<close> uses once a timestamp is known: the gap clamped to 0.\<close>

definition predict_dt :: "real \<Rightarrow> real \<Rightarrow> real" where
  "predict_dt l futureTimestamp = max (futureTimestamp - l) 0"

definition decay_factors :: "real \<Rightarrow> real list \<Rightarrow> real list" where
  "decay_factors dt tau = map (\<lambda>t. exp (- dt / t)) tau"

text \<open>\<open>h_new = h_old * decay + equilibrium * (1 - decay)\<close>, componentwise.\<close>

definition relax :: "real list \<Rightarrow> real list \<Rightarrow> real list \<Rightarrow> real list" where
  "relax st eq decay =
     vectorAdd (vectorMultiply st decay) (vectorMultiply eq (map (\<lambda>d. 1 - d) decay))"

definition CfCCell_step :: "CfCCell \<Rightarrow> real list \<Rightarrow> real \<Rightarrow> real list \<times> CfCCell" where
  "CfCCell_step c observation timestamp =
     (let dt = step_dt c timestamp;
          c1 = c\<lparr>cell_lastTimestamp := Some timestamp\<rparr>;
          c2 = updateEquilibrium c1 observation;
          c3 = updateTau c2 observation;
          decay = decay_factors dt (cell_tau c3);
          newState = relax (cell_state c3) (cell_equilibrium c3) decay
      in (newState, c3\<lparr>cell_state := newState\<rparr>))"

definition CfCCell_predict :: "CfCCell \<Rightarrow> real \<Rightarrow> real list" where
  "CfCCell_predict c futureTimestamp =
     (case cell_lastTimestamp c of
        None \<Rightarrow> zeros (cc_stateDim (cell_config c))
      | Some l \<Rightarrow>
          (let dt = predict_dt l futureTimestamp;
               decay = decay_factors dt (cell_tau c)
           in relax (cell_state c) (cell_equilibrium c) decay))"

definition getTau :: "CfCCell \<Rightarrow> real list" where
  "getTau c = cell_tau c"

text \<open>
  The cells a constructor builds and \<open>step\<close> maintains: the three vectors have \<open>stateDim\<close>
  entries, the configured bounds of the time constant are positive, and so is every time
  constant.
\<close>

definition cell_ok :: "CfCCell \<Rightarrow> bool" where
  "cell_ok c \<longleftrightarrow>
     length (cell_state c) = cc_stateDim (cell_config c) \<and>
     length (cell_tau c) = cc_stateDim (cell_config c) \<and>
     length (cell_equilibrium c) = cc_stateDim (cell_config c) \<and>
     0 < cc_tauMin (cell_config c) \<and> 0 < cc_tauMax (cell_config c) \<and>
     (\<forall>t \<in> set (cell_tau c). 0 < t)"

section \<open>Continuous dynamics engine: HealthStateEstimator\<close>

record DimensionConfig =
  dc_name :: string
  dc_tauMin :: real
  dc_tauMax :: real

record HealthStateConfig =
  hsc_dimensions :: "DimensionConfig list"

definition DEFAULT_HEALTH_STATE_CONFIG :: HealthStateConfig where
  "DEFAULT_HEALTH_STATE_CONFIG =
     \<lparr>hsc_dimensions =
        [\<lparr>dc_name = ''cardiovascular'', dc_tauMin = 60, dc_tauMax = 3600\<rparr>,
         \<lparr>dc_name = ''activity'', dc_tauMin = 300, dc_tauMax = 86400\<rparr>,
         \<lparr>dc_name = ''sleep'', dc_tauMin = 3600, dc_tauMax = 604800\<rparr>,
         \<lparr>dc_name = ''stress'', dc_tauMin = 60, dc_tauMax = 7200\<rparr>,
         \<lparr>dc_name = ''energy'', dc_tauMin = 1800, dc_tauMax = 86400\<rparr>,
         \<lparr>dc_name = ''recovery'', dc_tauMin = 3600, dc_tauMax = 259200\<rparr>,
         \<lparr>dc_name = ''circadian'', dc_tauMin = 43200, dc_tauMax = 172800\<rparr>,
         \<lparr>dc_name = ''metabolic'', dc_tauMin = 1800, dc_tauMax = 28800\<rparr>]\<rparr>"

definition HealthStateConfig_merge :: "DimensionConfig list option \<Rightarrow> HealthStateConfig" where
  "HealthStateConfig_merge ds =
     (case ds of None \<Rightarrow> DEFAULT_HEALTH_STATE_CONFIG | Some ds' \<Rightarrow> \<lparr>hsc_dimensions = ds'\<rparr>)"

text \<open>\<open>timeSinceUpdate\<close> is a number or \<open>Infinity\<close>.\<close>

datatype time_since = Elapsed real | Infinity

record HealthState =
  hs_timestamp :: real
  hs_dimensions :: "string \<rightharpoonup> real"
  hs_confidence :: "string \<rightharpoonup> real"
  hs_timeSinceUpdate :: time_since

record HealthStateEstimator =
  est_cells :: "string \<rightharpoonup> CfCCell"
  est_config :: HealthStateConfig
  est_lastUpdateTime :: "real option"

text \<open>
  \<open>this.cells.get(dim.name)!\<close> asserts the cell exists; were it missing, the method call on
  \<open>undefined\<close> would raise a TypeError.
\<close>

datatype error = TypeError

definition HealthStateEstimator_new :: "HealthStateConfig \<Rightarrow> HealthStateEstimator" where
  "HealthStateEstimator_new cfg =
     \<lparr>est_cells =
        fold (\<lambda>dimc cs. cs(dc_name dimc \<mapsto>
                CfCCell_new (CfCConfig_merge (Some 4) (Some (dc_tauMin dimc))
                               (Some (dc_tauMax dimc)) None)))
          (hsc_dimensions cfg) Map.empty,
      est_config = cfg,
      est_lastUpdateTime = None\<rparr>"

text \<open>The weighted sum collapsing a cell's 4-vector to one scalar.\<close>

definition aggregate :: "real list \<Rightarrow> real" where
  "aggregate st = st ! 0 * (5/10) + st ! 1 * (3/10) + st ! 2 * (15/100) + st ! 3 * (5/100)"

definition avgTau :: "real list \<Rightarrow> real" where
  "avgTau tau = foldl (\<lambda>a b. a + b) 0 tau / real (length tau)"

definition obsVector :: "real \<Rightarrow> real list" where
  "obsVector obsValue = [obsValue, obsValue * (5/10), obsValue * (25/100), obsValue * (125/1000)]"

text \<open>
  The loop of \<open>update\<close> over the configured dimensions, threading the cells and the two
  result maps.
\<close>

fun update_dims ::
  "DimensionConfig list \<Rightarrow> (string \<rightharpoonup> real) \<Rightarrow> real \<Rightarrow>
   (string \<rightharpoonup> CfCCell) \<times> (string \<rightharpoonup> real) \<times> (string \<rightharpoonup> real) \<Rightarrow>
   error + (string \<rightharpoonup> CfCCell) \<times> (string \<rightharpoonup> real) \<times> (string \<rightharpoonup> real)" where
  "update_dims [] observations timestamp acc = Inr acc"
| "update_dims (dimc # dims) observations timestamp (cells, dimensions, confidence) =
     (case cells (dc_name dimc) of
        None \<Rightarrow> Inl TypeError
      | Some cell \<Rightarrow>
          (let obsValue = (case observations (dc_name dimc) of None \<Rightarrow> 0 | Some v \<Rightarrow> v);
               (st, cell') = CfCCell_step cell (obsVector obsValue) timestamp;
               tau = getTau cell'
           in update_dims dims observations timestamp
                (cells(dc_name dimc \<mapsto> cell'),
                 dimensions(dc_name dimc \<mapsto> aggregate st),
                 confidence(dc_name dimc \<mapsto> exp (- (1/10) / avgTau tau)))))"

definition HealthStateEstimator_update ::
  "HealthStateEstimator \<Rightarrow> (string \<rightharpoonup> real) \<Rightarrow> real \<Rightarrow> error + HealthState \<times> HealthStateEstimator" where
  "HealthStateEstimator_update e observations timestamp =
     (case update_dims (hsc_dimensions (est_config e)) observations timestamp
             (est_cells e, Map.empty, Map.empty) of
        Inl err \<Rightarrow> Inl err
      | Inr (cells', dimensions, confidence) \<Rightarrow>
          Inr (\<lparr>hs_timestamp = timestamp, hs_dimensions = dimensions,
                hs_confidence = confidence, hs_timeSinceUpdate = Elapsed 0\<rparr>,
               e\<lparr>est_cells := cells', est_lastUpdateTime := Some timestamp\<rparr>))"

text \<open>
  \<open>this.lastUpdateTime ? a : b\<close> tests truthiness: \<open>null\<close> and the number 0 both take the
  second branch.
\<close>

definition horizon :: "real option \<Rightarrow> real \<Rightarrow> real" where
  "horizon lastUpdateTime futureTimestamp =
     (case lastUpdateTime of
        None \<Rightarrow> 0
      | Some l \<Rightarrow> if l = 0 then 0 else futureTimestamp - l)"

fun predict_dims ::
  "DimensionConfig list \<Rightarrow> (string \<rightharpoonup> CfCCell) \<Rightarrow> real option \<Rightarrow> real \<Rightarrow>
   (string \<rightharpoonup> real) \<times> (string \<rightharpoonup> real) \<Rightarrow>
   error + (string \<rightharpoonup> real) \<times> (string \<rightharpoonup> real)" where
  "predict_dims [] cells lastUpdateTime futureTimestamp acc = Inr acc"
| "predict_dims (dimc # dims) cells lastUpdateTime futureTimestamp (dimensions, confidence) =
     (case cells (dc_name dimc) of
        None \<Rightarrow> Inl TypeError
      | Some cell \<Rightarrow>
          (let st = CfCCell_predict cell futureTimestamp;
               dt = horizon lastUpdateTime futureTimestamp;
               tau = getTau cell
           in predict_dims dims cells lastUpdateTime futureTimestamp
                (dimensions(dc_name dimc \<mapsto> aggregate st),
                 confidence(dc_name dimc \<mapsto> exp (- dt / avgTau tau)))))"

definition HealthStateEstimator_predict ::
  "HealthStateEstimator \<Rightarrow> real \<Rightarrow> error + HealthState" where
  "HealthStateEstimator_predict e futureTimestamp =
     (case predict_dims (hsc_dimensions (est_config e)) (est_cells e) (est_lastUpdateTime e)
             futureTimestamp (Map.empty, Map.empty) of
        Inl err \<Rightarrow> Inl err
      | Inr (dimensions, confidence) \<Rightarrow>
          Inr \<lparr>hs_timestamp = futureTimestamp, hs_dimensions = dimensions,
               hs_confidence = confidence,
               hs_timeSinceUpdate =
                 (case est_lastUpdateTime e of
                    None \<Rightarrow> Infinity
                  | Some l \<Rightarrow> if l = 0 then Infinity else Elapsed (futureTimestamp - l))\<rparr>)"

definition getCurrentState :: "HealthStateEstimator \<Rightarrow> error + HealthState option" where
  "getCurrentState e =
     (case est_lastUpdateTime e of
        None \<Rightarrow> Inr None
      | Some l \<Rightarrow>
          (case HealthStateEstimator_predict e l of
             Inl err \<Rightarrow> Inl err
           | Inr hs \<Rightarrow> Inr (Some hs)))"

text \<open>
  The estimators a constructor builds and \<open>update\<close> maintains: every configured dimension
  has its cell, of internal dimension 4 and well-formed.
\<close>

definition est_ok :: "HealthStateEstimator \<Rightarrow> bool" where
  "est_ok e \<longleftrightarrow>
     (\<forall>dimc \<in> set (hsc_dimensions (est_config e)).
        \<exists>c. est_cells e (dc_name dimc) = Some c \<and> cell_ok c \<and> cc_stateDim (cell_config c) = 4)"

text \<open>A configuration as the data model requires it: positive bounds for every dimension.\<close>

definition config_ok :: "HealthStateConfig \<Rightarrow> bool" where
  "config_ok cfg \<longleftrightarrow>
     (\<forall>dimc \<in> set (hsc_dimensions cfg). 0 < dc_tauMin dimc \<and> 0 < dc_tauMax dimc)"

text \<open>
  Two bookkeeping predicates for the loops over the dimensions: a name has a well-formed
  cell; and a value recorded for a name is the aggregate of that name's cell, which was
  stepped at the given timestamp.
\<close>

definition good :: "(string \<rightharpoonup> CfCCell) \<Rightarrow> string \<Rightarrow> bool" where
  "good cells n \<longleftrightarrow> (\<exists>c. cells n = Some c \<and> cell_ok c \<and> cc_stateDim (cell_config c) = 4)"

definition synced :: "real \<Rightarrow> (string \<rightharpoonup> CfCCell) \<Rightarrow> (string \<rightharpoonup> real) \<Rightarrow> string \<Rightarrow> bool" where
  "synced ts cells dm n \<longleftrightarrow>
     (case dm n of None \<Rightarrow> True
      | Some v \<Rightarrow> (\<exists>c. cells n = Some c \<and> cell_lastTimestamp c = Some ts \<and> v = aggregate (cell_state c)))"

section \<open>Intervention planner: types\<close>

record ActionEffect =
  ef_dimension :: string
  ef_magnitude :: real
  ef_confidence :: real
  ef_timeToEffect :: real

record Action =
  ac_id :: string
  ac_name :: string
  ac_category :: string
  ac_cost :: real
  ac_duration :: real
  ac_effects :: "ActionEffect list"

record PlannedAction =
  pa_action :: Action
  pa_weight :: real
  pa_priority :: nat
  pa_expectedImpact :: "(string \<times> real) list"

text \<open>
  The explanation sentence of a planned action is built from the action's name and from
  the dimension and magnitude of its dominant effect; the model keeps these three parts
  and leaves the formatting of the sentence out.
\<close>

record Explanation =
  ex_name :: string
  ex_dimension :: string
  ex_magnitude :: real

record InterventionPlan =
  ip_actions :: "PlannedAction list"
  ip_expectedGap :: real
  ip_totalCost :: real
  ip_activeCount :: nat
  ip_explanation :: "Explanation list"

record PlannerConfig =
  pc_lambda :: real
  pc_maxActions :: int
  pc_costWeight :: real
  pc_actions :: "Action list"

record Constraints =
  cn_maxCost :: "real option"
  cn_maxDuration :: "real option"
  cn_excludeCategories :: "string list option"

definition DEFAULT_ACTIONS :: "Action list" where
  "DEFAULT_ACTIONS =
     [\<lparr>ac_id = ''walk_15min'', ac_name = ''15-minute walk'', ac_category = ''activity'',
        ac_cost = 2/10, ac_duration = 15,
        ac_effects =
          [\<lparr>ef_dimension = ''cardiovascular'', ef_magnitude = 3/10, ef_confidence = 9/10, ef_timeToEffect = 5\<rparr>,
           \<lparr>ef_dimension = ''energy'', ef_magnitude = 2/10, ef_confidence = 8/10, ef_timeToEffect = 15\<rparr>,
           \<lparr>ef_dimension = ''stress'', ef_magnitude = - (2/10), ef_confidence = 7/10, ef_timeToEffect = 10\<rparr>]\<rparr>,
      \<lparr>ac_id = ''hiit_20min'', ac_name = ''20-minute HIIT workout'', ac_category = ''activity'',
        ac_cost = 6/10, ac_duration = 20,
        ac_effects =
          [\<lparr>ef_dimension = ''cardiovascular'', ef_magnitude = 6/10, ef_confidence = 9/10, ef_timeToEffect = 5\<rparr>,
           \<lparr>ef_dimension = ''metabolic'', ef_magnitude = 4/10, ef_confidence = 8/10, ef_timeToEffect = 30\<rparr>,
           \<lparr>ef_dimension = ''stress'', ef_magnitude = - (3/10), ef_confidence = 7/10, ef_timeToEffect = 20\<rparr>,
           \<lparr>ef_dimension = ''energy'', ef_magnitude = - (2/10), ef_confidence = 6/10, ef_timeToEffect = 0\<rparr>]\<rparr>,
      \<lparr>ac_id = ''stretch_10min'', ac_name = ''10-minute stretching'', ac_category = ''activity'',
        ac_cost = 1/10, ac_duration = 10,
        ac_effects =
          [\<lparr>ef_dimension = ''stress'', ef_magnitude = - (2/10), ef_confidence = 8/10, ef_timeToEffect = 5\<rparr>,
           \<lparr>ef_dimension = ''recovery'', ef_magnitude = 15/100, ef_confidence = 7/10, ef_timeToEffect = 10\<rparr>]\<rparr>,
      \<lparr>ac_id = ''power_nap'', ac_name = ''20-minute power nap'', ac_category = ''recovery'',
        ac_cost = 3/10, ac_duration = 25,
        ac_effects =
          [\<lparr>ef_dimension = ''energy'', ef_magnitude = 4/10, ef_confidence = 8/10, ef_timeToEffect = 25\<rparr>,
           \<lparr>ef_dimension = ''stress'', ef_magnitude = - (3/10), ef_confidence = 7/10, ef_timeToEffect = 25\<rparr>,
           \<lparr>ef_dimension = ''recovery'', ef_magnitude = 2/10, ef_confidence = 6/10, ef_timeToEffect = 25\<rparr>]\<rparr>,
      \<lparr>ac_id = ''sleep_8hr'', ac_name = ''Full 8-hour sleep'', ac_category = ''recovery'',
        ac_cost = 1/10, ac_duration = 480,
        ac_effects =
          [\<lparr>ef_dimension = ''energy'', ef_magnitude = 8/10, ef_confidence = 9/10, ef_timeToEffect = 480\<rparr>,
           \<lparr>ef_dimension = ''recovery'', ef_magnitude = 9/10, ef_confidence = 9/10, ef_timeToEffect = 480\<rparr>,
           \<lparr>ef_dimension = ''stress'', ef_magnitude = - (5/10), ef_confidence = 8/10, ef_timeToEffect = 480\<rparr>,
           \<lparr>ef_dimension = ''cardiovascular'', ef_magnitude = 2/10, ef_confidence = 7/10, ef_timeToEffect = 480\<rparr>]\<rparr>,
      \<lparr>ac_id = ''breathwork_5min'', ac_name = ''5-minute breathwork'', ac_category = ''stress'',
        ac_cost = 5/100, ac_duration = 5,
        ac_effects =
          [\<lparr>ef_dimension = ''stress'', ef_magnitude = - (3/10), ef_confidence = 9/10, ef_timeToEffect = 2\<rparr>,
           \<lparr>ef_dimension = ''cardiovascular'', ef_magnitude = - (1/10), ef_confidence = 8/10, ef_timeToEffect = 2\<rparr>]\<rparr>,
      \<lparr>ac_id = ''meditation_10min'', ac_name = ''10-minute meditation'', ac_category = ''stress'',
        ac_cost = 15/100, ac_duration = 10,
        ac_effects =
          [\<lparr>ef_dimension = ''stress'', ef_magnitude = - (4/10), ef_confidence = 85/100, ef_timeToEffect = 5\<rparr>,
           \<lparr>ef_dimension = ''energy'', ef_magnitude = 1/10, ef_confidence = 6/10, ef_timeToEffect = 10\<rparr>]\<rparr>,
      \<lparr>ac_id = ''cold_shower'', ac_name = ''2-minute cold shower'', ac_category = ''stress'',
        ac_cost = 4/10, ac_duration = 5,
        ac_effects =
          [\<lparr>ef_dimension = ''energy'', ef_magnitude = 5/10, ef_confidence = 8/10, ef_timeToEffect = 2\<rparr>,
           \<lparr>ef_dimension = ''stress'', ef_magnitude = - (2/10), ef_confidence = 7/10, ef_timeToEffect = 5\<rparr>,
           \<lparr>ef_dimension = ''recovery'', ef_magnitude = 1/10, ef_confidence = 6/10, ef_timeToEffect = 30\<rparr>]\<rparr>,
      \<lparr>ac_id = ''hydrate'', ac_name = ''Drink 500ml water'', ac_category = ''nutrition'',
        ac_cost = 2/100, ac_duration = 1,
        ac_effects =
          [\<lparr>ef_dimension = ''energy'', ef_magnitude = 1/10, ef_confidence = 7/10, ef_timeToEffect = 15\<rparr>,
           \<lparr>ef_dimension = ''metabolic'', ef_magnitude = 5/100, ef_confidence = 6/10, ef_timeToEffect = 30\<rparr>]\<rparr>,
      \<lparr>ac_id = ''healthy_meal'', ac_name = ''Balanced meal'', ac_category = ''nutrition'',
        ac_cost = 2/10, ac_duration = 30,
        ac_effects =
          [\<lparr>ef_dimension = ''energy'', ef_magnitude = 3/10, ef_confidence = 8/10, ef_timeToEffect = 60\<rparr>,
           \<lparr>ef_dimension = ''metabolic'', ef_magnitude = 2/10, ef_confidence = 7/10, ef_timeToEffect = 120\<rparr>]\<rparr>,
      \<lparr>ac_id = ''social_call'', ac_name = ''Call a friend'', ac_category = ''social'',
        ac_cost = 15/100, ac_duration = 15,
        ac_effects =
          [\<lparr>ef_dimension = ''stress'', ef_magnitude = - (25/100), ef_confidence = 7/10, ef_timeToEffect = 5\<rparr>,
           \<lparr>ef_dimension = ''energy'', ef_magnitude = 15/100, ef_confidence = 6/10, ef_timeToEffect = 15\<rparr>]\<rparr>,
      \<lparr>ac_id = ''digital_detox_1hr'', ac_name = ''1-hour digital detox'', ac_category = ''digital'',
        ac_cost = 3/10, ac_duration = 60,
        ac_effects =
          [\<lparr>ef_dimension = ''stress'', ef_magnitude = - (2/10), ef_confidence = 7/10, ef_timeToEffect = 30\<rparr>,
           \<lparr>ef_dimension = ''energy'', ef_magnitude = 1/10, ef_confidence = 5/10, ef_timeToEffect = 60\<rparr>]\<rparr>]"

definition DEFAULT_PLANNER_CONFIG :: PlannerConfig where
  "DEFAULT_PLANNER_CONFIG =
     \<lparr>pc_lambda = 1/10, pc_maxActions = 5, pc_costWeight = 3/10, pc_actions = DEFAULT_ACTIONS\<rparr>"

definition PlannerConfig_merge ::
  "real option \<Rightarrow> int option \<Rightarrow> real option \<Rightarrow> Action list option \<Rightarrow> PlannerConfig" where
  "PlannerConfig_merge l m w as =
     \<lparr>pc_lambda = (case l of None \<Rightarrow> pc_lambda DEFAULT_PLANNER_CONFIG | Some x \<Rightarrow> x),
      pc_maxActions = (case m of None \<Rightarrow> pc_maxActions DEFAULT_PLANNER_CONFIG | Some x \<Rightarrow> x),
      pc_costWeight = (case w of None \<Rightarrow> pc_costWeight DEFAULT_PLANNER_CONFIG | Some x \<Rightarrow> x),
      pc_actions = (case as of None \<Rightarrow> pc_actions DEFAULT_PLANNER_CONFIG | Some x \<Rightarrow> x)\<rparr>"

section \<open>Intervention planner: gap and scores\<close>

text \<open>
  A state \<open>Record<string, number>\<close> is an association list in key order.  The planner's
  only state besides its configuration, the causal matrix, is never read by \<open>plan\<close>, so
  the planner is represented by its configuration.
\<close>

text \<open>\<open>new Set([...a, ...b])\<close>: the elements in order of first occurrence.\<close>

definition set_in_order :: "'a list \<Rightarrow> 'a list" where
  "set_in_order xs = foldl (\<lambda>acc x. if x \<in> set acc then acc else acc @ [x]) [] xs"

text \<open>\<open>rec[key] || 0\<close>: a missing key and a zero value both give 0.\<close>

definition lookup_or_zero :: "(string \<times> real) list \<Rightarrow> string \<Rightarrow> real" where
  "lookup_or_zero rec k = (case map_of rec k of None \<Rightarrow> 0 | Some v \<Rightarrow> js_or v 0)"

definition calculateGap :: "(string \<times> real) list \<Rightarrow> (string \<times> real) list \<Rightarrow> (string \<times> real) list" where
  "calculateGap current target =
     (let allDims = set_in_order (map fst current @ map fst target)
      in map (\<lambda>dimc. (dimc, lookup_or_zero target dimc - lookup_or_zero current dimc)) allDims)"

text \<open>One iteration of the loop over an action's effects.\<close>

definition effect_step :: "(string \<times> real) list \<Rightarrow> real \<times> real \<Rightarrow> ActionEffect \<Rightarrow> real \<times> real" where
  "effect_step gap acc effect =
     (let (benefit, totalWeight) = acc;
          dimGap = lookup_or_zero gap (ef_dimension effect);
          benefit' =
            (if (dimGap > 0 \<and> ef_magnitude effect > 0) \<or> (dimGap < 0 \<and> ef_magnitude effect < 0)
             then benefit + min \<bar>dimGap\<bar> \<bar>ef_magnitude effect\<bar> * ef_confidence effect
             else if \<bar>ef_magnitude effect\<bar> > \<bar>dimGap\<bar> * 2
             then benefit - (1/10) * \<bar>ef_magnitude effect\<bar> * ef_confidence effect
             else benefit)
      in (benefit', totalWeight + ef_confidence effect))"

text \<open>The body of the loop over the actions, after the cost-budget test.\<close>

definition action_score :: "PlannerConfig \<Rightarrow> (string \<times> real) list \<Rightarrow> Action \<Rightarrow> real" where
  "action_score cfg gap action =
     (let (benefit, totalWeight) = foldl (effect_step gap) (0, 0) (ac_effects action);
          benefit' = (if totalWeight > 0 then benefit / totalWeight else benefit);
          sparsityPenalty = pc_lambda cfg;
          costPenalty = pc_costWeight cfg * ac_cost action
      in max 0 (benefit' - sparsityPenalty - costPenalty))"

fun score_loop ::
  "PlannerConfig \<Rightarrow> (string \<times> real) list \<Rightarrow> real option \<Rightarrow> Action list \<Rightarrow> (Action \<times> real) list" where
  "score_loop cfg gap maxCost [] = []"
| "score_loop cfg gap maxCost (action # actions) =
     (if (case maxCost of None \<Rightarrow> False | Some mc \<Rightarrow> ac_cost action > mc)
      then score_loop cfg gap maxCost actions
      else (action, action_score cfg gap action) # score_loop cfg gap maxCost actions)"

text \<open>\<open>scores.sort((a, b) => b.score - a.score)\<close>: a stable sort, highest score first.\<close>

definition scoreActions ::
  "PlannerConfig \<Rightarrow> Action list \<Rightarrow> (string \<times> real) list \<Rightarrow> real option \<Rightarrow> (Action \<times> real) list" where
  "scoreActions cfg actions gap maxCost =
     sort_key (\<lambda>as. - snd as) (score_loop cfg gap maxCost actions)"

text \<open>
  The scoring rule as the specification words it, for comparison: the benefit for a
  matching sign and the penalty for an overshoot are two independent tests, and the
  accrued benefit is divided by the total confidence.
\<close>

definition spec_effect_contribution :: "(string \<times> real) list \<Rightarrow> ActionEffect \<Rightarrow> real" where
  "spec_effect_contribution gap effect =
     (let dimGap = lookup_or_zero gap (ef_dimension effect)
      in (if (dimGap > 0 \<and> ef_magnitude effect > 0) \<or> (dimGap < 0 \<and> ef_magnitude effect < 0)
          then min \<bar>dimGap\<bar> \<bar>ef_magnitude effect\<bar> * ef_confidence effect else 0)
         - (if \<bar>ef_magnitude effect\<bar> > 2 * \<bar>dimGap\<bar>
            then (1/10) * \<bar>ef_magnitude effect\<bar> * ef_confidence effect else 0))"

definition spec_action_score :: "PlannerConfig \<Rightarrow> (string \<times> real) list \<Rightarrow> Action \<Rightarrow> real" where
  "spec_action_score cfg gap action =
     max 0 ((\<Sum>e\<leftarrow>ac_effects action. spec_effect_contribution gap e)
              / (\<Sum>e\<leftarrow>ac_effects action. ef_confidence e)
            - pc_lambda cfg - pc_costWeight cfg * ac_cost action)"

text \<open>
  What one effect adds to the benefit in the code: the penalty test is the \<open>else\<close> branch
  of the sign test.
\<close>

definition effect_contribution :: "(string \<times> real) list \<Rightarrow> ActionEffect \<Rightarrow> real" where
  "effect_contribution gap effect =
     (let dimGap = lookup_or_zero gap (ef_dimension effect)
      in if (dimGap > 0 \<and> ef_magnitude effect > 0) \<or> (dimGap < 0 \<and> ef_magnitude effect < 0)
         then min \<bar>dimGap\<bar> \<bar>ef_magnitude effect\<bar> * ef_confidence effect
         else if \<bar>ef_magnitude effect\<bar> > 2 * \<bar>dimGap\<bar>
         then - ((1/10) * \<bar>ef_magnitude effect\<bar> * ef_confidence effect)
         else 0)"

section \<open>Intervention planner: plan\<close>

text \<open>
  The two optional filters.  The tests are on truthiness: an \<open>excludeCategories\<close> array
  counts even when empty, a \<open>maxDuration\<close> of 0 does not count.
\<close>

definition availableActions :: "PlannerConfig \<Rightarrow> Constraints option \<Rightarrow> Action list" where
  "availableActions cfg constraints =
     (let available = pc_actions cfg;
          available1 =
            (case constraints of
               None \<Rightarrow> available
             | Some c \<Rightarrow>
                 (case cn_excludeCategories c of
                    None \<Rightarrow> available
                  | Some ex \<Rightarrow> filter (\<lambda>a. ac_category a \<notin> set ex) available))
      in (case constraints of
            None \<Rightarrow> available1
          | Some c \<Rightarrow>
              (case cn_maxDuration c of
                 None \<Rightarrow> available1
               | Some md \<Rightarrow>
                   if md = 0 then available1
                   else filter (\<lambda>a. ac_duration a \<le> md) available1)))"

text \<open>
  \<open>xs.slice(0, m)\<close> for an integer \<open>m\<close>: the first \<open>m\<close> elements, or, for negative \<open>m\<close>, all
  but the last \<open>-m\<close>.
\<close>

definition js_slice0 :: "int \<Rightarrow> 'a list \<Rightarrow> 'a list" where
  "js_slice0 m xs =
     (if m < 0 then take (nat (max (int (length xs) + m) 0)) xs else take (nat m) xs)"

definition selectedActions ::
  "PlannerConfig \<Rightarrow> (string \<times> real) list \<Rightarrow> Constraints option \<Rightarrow> (Action \<times> real) list" where
  "selectedActions cfg gap constraints =
     (let actionScores =
            scoreActions cfg (availableActions cfg constraints) gap
              (case constraints of None \<Rightarrow> None | Some c \<Rightarrow> cn_maxCost c)
      in js_slice0 (pc_maxActions cfg) (filter (\<lambda>as. snd as > 1/10) actionScores))"

definition calculateImpact :: "Action \<Rightarrow> string list \<Rightarrow> (string \<times> real) list" where
  "calculateImpact action dimensions =
     map (\<lambda>dimc.
            (dimc,
             (case find (\<lambda>e. ef_dimension e = dimc) (ac_effects action) of
                None \<Rightarrow> 0
              | Some effect \<Rightarrow> ef_magnitude effect * ef_confidence effect)))
       dimensions"

text \<open>
  \<open>effects.reduce((best, e) => ...)\<close> has no initial value: on an empty array it raises a
  TypeError.
\<close>

fun mainEffect :: "ActionEffect list \<Rightarrow> error + ActionEffect" where
  "mainEffect [] = Inl TypeError"
| "mainEffect (e # es) =
     Inr (foldl (\<lambda>best e'. if \<bar>ef_magnitude e'\<bar> > \<bar>ef_magnitude best\<bar> then e' else best) e es)"

text \<open>
  The loop over the selected actions; \<open>i\<close> is the loop index.  The running predicted gap
  has the keys of the gap, each of which the inner loop over the dimensions updates once.
\<close>

fun plan_loop ::
  "string list \<Rightarrow> (Action \<times> real) list \<Rightarrow> nat \<Rightarrow>
   (string \<times> real) list \<times> PlannedAction list \<times> Explanation list \<Rightarrow>
   error + (string \<times> real) list \<times> PlannedAction list \<times> Explanation list" where
  "plan_loop dimensions [] i acc = Inr acc"
| "plan_loop dimensions ((action, score) # rest) i (predictedGap, plannedActions, explanations) =
     (let impact = calculateImpact action dimensions;
          predictedGap' = map (\<lambda>(dimc, g). (dimc, g - lookup_or_zero impact dimc)) predictedGap;
          plannedActions' =
            plannedActions @
              [\<lparr>pa_action = action, pa_weight = score, pa_priority = i + 1,
                pa_expectedImpact = impact\<rparr>]
      in case mainEffect (ac_effects action) of
           Inl err \<Rightarrow> Inl err
         | Inr me \<Rightarrow>
             plan_loop dimensions rest (i + 1)
               (predictedGap', plannedActions',
                explanations @
                  [\<lparr>ex_name = ac_name action, ex_dimension = ef_dimension me,
                    ex_magnitude = ef_magnitude me\<rparr>]))"

definition plan ::
  "PlannerConfig \<Rightarrow> (string \<times> real) list \<Rightarrow> (string \<times> real) list \<Rightarrow> Constraints option \<Rightarrow>
   error + InterventionPlan" where
  "plan cfg currentState targetState constraints =
     (let gap = calculateGap currentState targetState;
          dimensions = map fst gap;
          selected = selectedActions cfg gap constraints
      in case plan_loop dimensions selected 0 (gap, [], []) of
           Inl err \<Rightarrow> Inl err
         | Inr (predictedGap, plannedActions, explanations) \<Rightarrow>
             (let expectedGap = foldl (\<lambda>a b. a + b) 0 (map (\<lambda>v. v * v) (map snd predictedGap))
              in Inr \<lparr>ip_actions = plannedActions,
                      ip_expectedGap = sqrt expectedGap,
                      ip_totalCost = foldl (\<lambda>sum a. sum + ac_cost (pa_action a)) 0 plannedActions,
                      ip_activeCount = length plannedActions,
                      ip_explanation = explanations\<rparr>))"

definition quickWin ::
  "PlannerConfig \<Rightarrow> (string \<times> real) list \<Rightarrow> (string \<times> real) list \<Rightarrow> error + PlannedAction option" where
  "quickWin cfg currentState targetState =
     (case plan cfg currentState targetState
             (Some \<lparr>cn_maxCost = Some (3/10), cn_maxDuration = Some 15,
                    cn_excludeCategories = None\<rparr>) of
        Inl err \<Rightarrow> Inl err
      | Inr p \<Rightarrow> Inr (case ip_actions p of [] \<Rightarrow> None | a # _ \<Rightarrow> Some a))"

text \<open>
  The invariant of the recursion, in a form free of division: the running mean times the
  count is the sum, and \<open>m2\<close> is the sum of squares minus count times mean squared.
\<close>

definition welford_inv :: "OnlineStats \<Rightarrow> real list \<Rightarrow> bool" where
  "welford_inv s xs \<longleftrightarrow>
     os_count s = length xs \<and>
     real (length xs) * os_mean s = sum_list xs \<and>
     os_m2 s = (\<Sum>x\<leftarrow>xs. x\<^sup>2) - real (length xs) * (os_mean s)\<^sup>2"

section \<open>Welford's recursion against the two-pass computation\<close>

lemma foldl_update_count:
  "os_count (foldl OnlineStats_update s xs) = os_count s + length xs"
  by (induction xs arbitrary: s) (simp_all add: OnlineStats_update_def Let_def)

lemma welford_inv_new: "welford_inv OnlineStats_new []"
  by (simp add: welford_inv_def OnlineStats_new_def)

lemma welford_inv_update:
  assumes "welford_inv s xs"
  shows "welford_inv (OnlineStats_update s v) (xs @ [v])"
proof -
  define n where "n = real (length xs)"
  define m where "m = os_mean s"
  define S where "S = sum_list xs"
  define Q where "Q = (\<Sum>x\<leftarrow>xs. x\<^sup>2)"
  have c: "os_count s = length xs" and sm: "n * m = S" and q: "os_m2 s = Q - n * m\<^sup>2"
    using assms by (simp_all add: welford_inv_def n_def m_def S_def Q_def)
  have n0: "0 \<le> n" by (simp add: n_def)
  then have n1: "n + 1 \<noteq> 0" by linarith
  define m' where "m' = m + (v - m) / (n + 1)"
  have mean': "(n + 1) * m' = S + v"
    using n1 sm by (simp add: m'_def field_simps)
  have vm: "v - m = (n + 1) * (m' - m)"
    using n1 by (simp add: m'_def field_simps)
  have "Q - n * m\<^sup>2 + (v - m) * (v - m') = Q + v\<^sup>2 - (n + 1) * m'\<^sup>2"
  proof -
    have v: "v = (n + 1) * m' - n * m"
      using mean' sm by simp
    show ?thesis
      by (subst (1 2 3) v) (simp add: power2_eq_square algebra_simps)
  qed
  then have m2': "os_m2 s + (v - m) * (v - m') = Q + v\<^sup>2 - (n + 1) * m'\<^sup>2"
    using q by simp
  have upd: "OnlineStats_update s v =
      \<lparr>os_count = length xs + 1, os_mean = m', os_m2 = os_m2 s + (v - m) * (v - m')\<rparr>"
    by (simp add: OnlineStats_update_def Let_def c m'_def m_def n_def add.commute)
  show ?thesis
    unfolding welford_inv_def upd using mean' m2'
    by (simp add: n_def S_def Q_def algebra_simps)
qed

lemma welford_inv_foldl:
  "welford_inv s xs \<Longrightarrow> welford_inv (foldl OnlineStats_update s ys) (xs @ ys)"
proof (induction ys arbitrary: s xs)
  case Nil
  then show ?case by simp
next
  case (Cons y ys)
  from Cons.IH [OF welford_inv_update [OF Cons.prems, of y]]
  show ?case by simp
qed

lemma welford_inv_feed: "welford_inv (OnlineStats_feed xs) xs"
  using welford_inv_foldl [OF welford_inv_new, of xs] by (simp add: OnlineStats_feed_def)

lemma sum_sq_dev:
  fixes xs :: "real list"
  shows "(\<Sum>x\<leftarrow>xs. (x - a)\<^sup>2) =
         (\<Sum>x\<leftarrow>xs. x\<^sup>2) - 2 * a * sum_list xs + real (length xs) * a\<^sup>2"
  by (induction xs) (simp_all add: power2_eq_square algebra_simps)

lemma feed_mean:
  assumes "xs \<noteq> []"
  shows "os_mean (OnlineStats_feed xs) = two_pass_mean xs"
proof -
  have "real (length xs) * os_mean (OnlineStats_feed xs) = sum_list xs"
    using welford_inv_feed [of xs] by (simp add: welford_inv_def)
  moreover have "real (length xs) \<noteq> 0" using assms by simp
  ultimately show ?thesis by (simp add: two_pass_mean_def field_simps)
qed

lemma feed_m2:
  assumes "xs \<noteq> []"
  shows "os_m2 (OnlineStats_feed xs) = (\<Sum>x\<leftarrow>xs. (x - two_pass_mean xs)\<^sup>2)"
proof -
  define n where "n = real (length xs)"
  define a where "a = two_pass_mean xs"
  have n: "n \<noteq> 0" using assms by (simp add: n_def)
  have s: "sum_list xs = n * a"
    using n by (simp add: a_def two_pass_mean_def n_def)
  have "os_m2 (OnlineStats_feed xs) = (\<Sum>x\<leftarrow>xs. x\<^sup>2) - n * a\<^sup>2"
    using welford_inv_feed [of xs] feed_mean [OF assms]
    by (simp add: welford_inv_def n_def a_def)
  also have "\<dots> = (\<Sum>x\<leftarrow>xs. x\<^sup>2) - 2 * a * (n * a) + n * a\<^sup>2"
    by (simp add: power2_eq_square algebra_simps)
  also have "\<dots> = (\<Sum>x\<leftarrow>xs. (x - a)\<^sup>2)"
    unfolding sum_sq_dev [of a xs] s n_def ..
  finally show ?thesis by (simp add: a_def)
qed

text \<open>
  C5.  For every finite sequence of values fed to \<open>OnlineStats.update\<close>, starting from a
  fresh accumulator: \<open>getCount\<close> is the length \<open>N\<close> of the sequence; \<open>getMean\<close> is the
  arithmetic mean (for the empty sequence it is the initial 0); and \<open>getVariance\<close> is 0
  when \<open>N \<le> 1\<close> and otherwise the unbiased two-pass sample variance
  \<open>sum ((x_i - mean)^2) / (N - 1)\<close>.  Equality is exact, in real arithmetic.
\<close>

theorem C5_welford_equals_two_pass:
  "getCount (OnlineStats_feed xs) = length xs \<and>
   getMean (OnlineStats_feed xs) = (if xs = [] then 0 else two_pass_mean xs) \<and>
   getVariance (OnlineStats_feed xs) =
     (if length xs \<le> 1 then 0 else two_pass_variance xs)"
proof -
  have cnt: "os_count (OnlineStats_feed xs) = length xs"
    by (simp add: OnlineStats_feed_def foldl_update_count OnlineStats_new_def)
  have mn: "getMean (OnlineStats_feed xs) = (if xs = [] then 0 else two_pass_mean xs)"
    by (simp add: getMean_def feed_mean) (simp add: OnlineStats_feed_def OnlineStats_new_def)
  have var: "getVariance (OnlineStats_feed xs) =
     (if length xs \<le> 1 then 0 else two_pass_variance xs)"
  proof (cases "length xs \<le> 1")
    case True
    then show ?thesis by (simp add: getVariance_def cnt)
  next
    case False
    then have ne: "xs \<noteq> []" by auto
    from False show ?thesis
      by (simp add: getVariance_def cnt feed_m2 [OF ne] two_pass_variance_def)
  qed
  show ?thesis using cnt mn var by (simp add: getCount_def)
qed

section \<open>SurpriseCalculator: the z-score and the surprise\<close>

text \<open>
  C1 (as the code has it).  For every call of \<open>SurpriseCalculator.calculate\<close>, with \<open>err\<close>
  the absolute prediction error returned by the predictor and \<open>es\<close> the error statistics
  after they absorbed \<open>err\<close>: the z-score is \<open>(err - mean es) / d\<close> where the divisor \<open>d\<close> is
  the standard deviation of \<open>es\<close> when that is non-zero and 1 when it is zero (so \<open>d\<close> is
  never zero, but it may be smaller than 1); the surprise is half the square of the
  z-score, hence non-negative.
\<close>

theorem C1_zscore_divisor_nonzero:
  "let err = fst (ExponentialPredictor_update (sc_predictor c) v);
       res = fst (calculate c v);
       es = sc_errorStats (snd (calculate c v));
       d = (if getStdDev es = 0 then 1 else getStdDev es)
   in es = OnlineStats_update (sc_errorStats c) err \<and>
      d \<noteq> 0 \<and>
      sr_zscore res = (err - getMean es) / d \<and>
      sr_surprise res = (1/2) * (sr_zscore res)\<^sup>2 \<and>
      0 \<le> sr_surprise res"
  by (simp add: calculate_def Let_def js_or_def power2_eq_square split: prod.splits)

lemmas calculate_unfold =
  calculate_def SurpriseCalculator_new_def ExponentialPredictor_new_def
  ExponentialPredictor_update_def ExponentialPredictor_predict_def OnlineStats_update_def
  OnlineStats_new_def Let_def getMean_def getStdDev_def getVariance_def js_or_def
  AdaptiveThreshold_update_def AdaptiveThreshold_new_def AdaptiveThreshold_get_def

lemma calc_0_1_errorStats:
  "sc_errorStats (snd (calculate (snd (calculate (SurpriseCalculator_new (3/10) 2) 0)) 1)) =
     \<lparr>os_count = 2, os_mean = 1/2, os_m2 = 1/2\<rparr>"
  by (simp add: calculate_unfold)

lemma calc_0_1_zscore:
  "sr_zscore (fst (calculate (snd (calculate (SurpriseCalculator_new (3/10) 2) 0)) 1)) =
     (1/2) / sqrt (1/2)"
  by (simp add: calculate_unfold)

lemma calc_0_1_surprise:
  "sr_surprise (fst (calculate (snd (calculate (SurpriseCalculator_new (3/10) 2) 0)) 1)) =
     (1/2) * ((1/2) / sqrt (1/2)) * ((1/2) / sqrt (1/2))"
  by (simp add: calculate_unfold)

lemma sqrt_half_less_one: "sqrt (1/2) < (1::real)"
  by (simp add: real_sqrt_lt_1_iff)

text \<open>
  C1 as stated fails.  A fresh calculator (alpha 0.3, thresholdK 2) is given the values 0
  and then 1.  On the second call the prediction error is 1 and the error statistics hold
  the errors 0 and 1, with mean 1/2 and standard deviation \<open>sqrt (1/2) < 1\<close>.  The code
  divides by that standard deviation, so the z-score is \<open>(1/2) / sqrt (1/2)\<close> and the surprise
  1/4; with the divisor \<open>max(stdDev, 1) = 1\<close> of the specification they would be 1/2 and 1/8.
\<close>

theorem C1_divisor_below_one_counterexample:
  "let c1 = snd (calculate (SurpriseCalculator_new (3/10) 2) 0);
       res = fst (calculate c1 1);
       es = sc_errorStats (snd (calculate c1 1))
   in fst (ExponentialPredictor_update (sc_predictor c1) 1) = 1 \<and>
      getStdDev es = sqrt (1/2) \<and> getStdDev es < 1 \<and>
      sr_zscore res = (1/2) / sqrt (1/2) \<and>
      spec_zscore 1 es = 1/2 \<and>
      sr_zscore res \<noteq> spec_zscore 1 es \<and>
      sr_surprise res = 1/4 \<and>
      (1/2) * (spec_zscore 1 es)\<^sup>2 = 1/8"
proof -
  have e: "fst (ExponentialPredictor_update
             (sc_predictor (snd (calculate (SurpriseCalculator_new (3/10) 2) 0))) 1) = 1"
    by (simp add: calculate_unfold)
  have sd: "getStdDev \<lparr>os_count = 2, os_mean = 1/2, os_m2 = 1/2\<rparr> = sqrt (1/2)"
    by (simp add: getStdDev_def getVariance_def)
  have spec: "spec_zscore 1 \<lparr>os_count = 2, os_mean = 1/2, os_m2 = 1/2\<rparr> = 1/2"
    using sqrt_half_less_one by (simp add: spec_zscore_def sd getMean_def max_def)
  have ne: "(1/2) / sqrt (1/2) \<noteq> (1/2::real)"
    using sqrt_half_less_one by (simp add: field_simps)
  have sq: "sqrt (1/2) * sqrt (1/2) = (1/2::real)"
    by simp
  have s: "(1/2) * ((1/2) / sqrt (1/2)) * ((1/2) / sqrt (1/2)) = (1/4::real)"
    using sq by (simp add: field_simps)
  show ?thesis
    unfolding Let_def e calc_0_1_errorStats calc_0_1_zscore calc_0_1_surprise sd spec s
    using sqrt_half_less_one ne by (simp add: power2_eq_square)
qed

section \<open>SurpriseFilter: warmup, unsupported types\<close>

lemma extractValue_None_iff: "extractValue r = None \<longleftrightarrow> record_type r \<notin> supported_types"
  by (cases r) (simp_all add: supported_types_def)

lemma filter_record_count: "sf_sampleCount (snd (filter_record f r)) = sf_sampleCount f + 1"
  by (simp add: filter_record_def Let_def split: option.splits prod.splits)

lemma filter_record_config: "sf_config (snd (filter_record f r)) = sf_config f"
  by (simp add: filter_record_def Let_def split: option.splits prod.splits)

lemma filter_record_reason:
  "fr_reason (fst (filter_record f r)) = ''warmup'' \<longleftrightarrow>
     int (sf_sampleCount f + 1) < fc_minSamples (sf_config f)"
  by (simp add: filter_record_def Let_def split: option.splits prod.splits)

lemma filter_record_reasons:
  "fr_reason (fst (filter_record f r)) \<in>
     {''warmup'', ''unsupported_type'', ''surprising'', ''expected''}"
  by (simp add: filter_record_def Let_def split: option.splits prod.splits)

text \<open>
  C2.  The sample counter is incremented on entry; a call on which the incremented counter
  is below \<open>minSamples\<close> returns \<open>keep = true\<close> with reason \<open>warmup\<close> (zero surprise, no
  per-metric results) whatever the record is, and leaves the map of calculators exactly as
  it was: no calculator is created and none is changed.  Only the counter moves.
\<close>

theorem C2_warmup_leaves_calculators:
  assumes "int (sf_sampleCount f + 1) < fc_minSamples (sf_config f)"
  shows "fr_keep (fst (filter_record f r)) = True \<and>
         fr_reason (fst (filter_record f r)) = ''warmup'' \<and>
         fr_totalSurprise (fst (filter_record f r)) = 0 \<and>
         fr_metricSurprises (fst (filter_record f r)) = Map.empty \<and>
         sf_calculators (snd (filter_record f r)) = sf_calculators f \<and>
         sf_config (snd (filter_record f r)) = sf_config f \<and>
         sf_sampleCount (snd (filter_record f r)) = sf_sampleCount f + 1"
  using assms by (simp add: filter_record_def Let_def)

theorem C2_warmup_witness:
  "int (sf_sampleCount (SurpriseFilter_new (FilterConfig_merge None None None)) + 1)
     < fc_minSamples (sf_config (SurpriseFilter_new (FilterConfig_merge None None None))) \<and>
   fr_keep (fst (filter_record (SurpriseFilter_new (FilterConfig_merge None None None))
      (HeartRate 70))) = True \<and>
   fr_reason (fst (filter_record (SurpriseFilter_new (FilterConfig_merge None None None))
      (HeartRate 70))) = ''warmup'' \<and>
   sf_calculators (snd (filter_record (SurpriseFilter_new (FilterConfig_merge None None None))
      (HeartRate 70)))
     = sf_calculators (SurpriseFilter_new (FilterConfig_merge None None None))"
proof -
  have h: "int (sf_sampleCount (SurpriseFilter_new (FilterConfig_merge None None None)) + 1)
     < fc_minSamples (sf_config (SurpriseFilter_new (FilterConfig_merge None None None)))"
    by (simp add: SurpriseFilter_new_def FilterConfig_merge_def)
  show ?thesis using h C2_warmup_leaves_calculators [OF h, of "HeartRate 70"] by simp
qed

text \<open>
  C6.  \<open>filter\<close> has no failing branch: it is a total function returning a result on every
  record.  Past warmup, a record whose type tag is none of the seven tags \<open>extractValue\<close>
  knows is kept with reason \<open>unsupported_type\<close> (zero surprise, no per-metric results), and
  the calculators are untouched.
\<close>

theorem C6_unsupported_type_kept:
  assumes "\<not> int (sf_sampleCount f + 1) < fc_minSamples (sf_config f)"
    and "record_type r \<notin> supported_types"
  shows "fst (filter_record f r) =
           \<lparr>fr_keep = True, fr_totalSurprise = 0, fr_metricSurprises = Map.empty,
            fr_reason = ''unsupported_type''\<rparr> \<and>
         sf_calculators (snd (filter_record f r)) = sf_calculators f"
proof -
  have "extractValue r = None" using assms(2) by (simp add: extractValue_None_iff)
  then show ?thesis using assms(1) by (simp add: filter_record_def Let_def)
qed

theorem C6_unsupported_type_witness:
  "\<not> int (sf_sampleCount (SurpriseFilter_new (FilterConfig_merge None (Some 0) None)) + 1)
       < fc_minSamples (sf_config (SurpriseFilter_new (FilterConfig_merge None (Some 0) None))) \<and>
   record_type (Height 180) \<notin> supported_types \<and>
   fr_keep (fst (filter_record (SurpriseFilter_new (FilterConfig_merge None (Some 0) None))
      (Height 180))) = True \<and>
   fr_reason (fst (filter_record (SurpriseFilter_new (FilterConfig_merge None (Some 0) None))
      (Height 180))) = ''unsupported_type''"
proof -
  have h1: "\<not> int (sf_sampleCount (SurpriseFilter_new (FilterConfig_merge None (Some 0) None)) + 1)
       < fc_minSamples (sf_config (SurpriseFilter_new (FilterConfig_merge None (Some 0) None)))"
    by (simp add: SurpriseFilter_new_def FilterConfig_merge_def)
  have h2: "record_type (Height 180) \<notin> supported_types"
    by (simp add: supported_types_def)
  show ?thesis using h1 h2 C6_unsupported_type_kept [OF h1 h2] by simp
qed

section \<open>SurpriseFilter: how many calls are warmup\<close>

lemma filter_calls_length: "length (fst (filter_calls f rs)) = length rs"
proof (induction rs arbitrary: f)
  case Nil
  then show ?case by simp
next
  case (Cons r rs)
  obtain res f' where fr: "filter_record f r = (res, f')" by (cases "filter_record f r")
  obtain ress f'' where fc: "filter_calls f' rs = (ress, f'')" by (cases "filter_calls f' rs")
  from Cons.IH [of f'] show ?case using fr fc by simp
qed

lemma filter_calls_reason:
  "k < length rs \<Longrightarrow>
     fr_reason (fst (filter_calls f rs) ! k) = ''warmup'' \<longleftrightarrow>
       int (sf_sampleCount f + k + 1) < fc_minSamples (sf_config f)"
proof (induction rs arbitrary: f k)
  case Nil
  then show ?case by simp
next
  case (Cons r rs)
  obtain res f' where fr: "filter_record f r = (res, f')" by (cases "filter_record f r")
  obtain ress f'' where fc: "filter_calls f' rs = (ress, f'')" by (cases "filter_calls f' rs")
  have cnt: "sf_sampleCount f' = sf_sampleCount f + 1" and cfg: "sf_config f' = sf_config f"
    using filter_record_count [of f r] filter_record_config [of f r] fr by simp_all
  show ?case
  proof (cases k)
    case 0
    then show ?thesis using filter_record_reason [of f r] fr fc by simp
  next
    case (Suc j)
    then have "j < length rs" using Cons.prems by simp
    from Cons.IH [OF this, of f'] show ?thesis
      using fr fc Suc cnt cfg by simp
  qed
qed

lemma filter_calls_reasons:
  "k < length rs \<Longrightarrow>
     fr_reason (fst (filter_calls f rs) ! k) \<in>
       {''warmup'', ''unsupported_type'', ''surprising'', ''expected''}"
proof (induction rs arbitrary: f k)
  case Nil
  then show ?case by simp
next
  case (Cons r rs)
  obtain res f' where fr: "filter_record f r = (res, f')" by (cases "filter_record f r")
  obtain ress f'' where fc: "filter_calls f' rs = (ress, f'')" by (cases "filter_calls f' rs")
  show ?case
  proof (cases k)
    case 0
    then show ?thesis using filter_record_reasons [of f r] fr fc by simp
  next
    case (Suc j)
    then have "j < length rs" using Cons.prems by simp
    from Cons.IH [OF this, of f'] show ?thesis
      using fr fc Suc by simp
  qed
qed

text \<open>
  C10.  A filter is built with \<open>minSamples = n\<close> and \<open>filter\<close> is then called on any records
  \<open>rs\<close>.  Because the counter is incremented before the strict comparison, call number
  \<open>k + 1\<close> (index \<open>k\<close>) returns reason \<open>warmup\<close> exactly when \<open>k < max (n - 1) 0\<close>: the warmup
  calls are exactly the first \<open>max (n - 1) 0\<close> ones, none at all for \<open>n \<le> 1\<close>, and from the
  \<open>n\<close>-th call on the reason is one of \<open>unsupported_type\<close>, \<open>surprising\<close>, \<open>expected\<close>.
\<close>

theorem C10_first_n_minus_one_calls_warmup:
  assumes "fc_minSamples cfg = n" and "k < length rs"
  shows "((fr_reason (fst (filter_calls (SurpriseFilter_new cfg) rs) ! k) = ''warmup'')
            = (k < nat (max (n - 1) 0))) \<and>
         ((fr_reason (fst (filter_calls (SurpriseFilter_new cfg) rs) ! k)
            \<in> {''unsupported_type'', ''surprising'', ''expected''})
            = (nat (max (n - 1) 0) \<le> k))"
proof -
  have "sf_sampleCount (SurpriseFilter_new cfg) = 0" "sf_config (SurpriseFilter_new cfg) = cfg"
    by (simp_all add: SurpriseFilter_new_def)
  with filter_calls_reason [OF assms(2), of "SurpriseFilter_new cfg"] assms(1)
  have w: "(fr_reason (fst (filter_calls (SurpriseFilter_new cfg) rs) ! k) = ''warmup'')
            = (k < nat (max (n - 1) 0))"
    by auto
  from filter_calls_reasons [OF assms(2), of "SurpriseFilter_new cfg"] w
  show ?thesis by auto
qed

theorem C10_warmup_calls_witness:
  "fc_minSamples (FilterConfig_merge None (Some 3) None) = 3 \<and>
   (2::nat) < length [HeartRate 70, HeartRate 71, HeartRate 72] \<and>
   fr_reason (fst (filter_calls (SurpriseFilter_new (FilterConfig_merge None (Some 3) None))
      [HeartRate 70, HeartRate 71, HeartRate 72]) ! 2) \<noteq> ''warmup'' \<and>
   fr_reason (fst (filter_calls (SurpriseFilter_new (FilterConfig_merge None (Some 3) None))
      [HeartRate 70, HeartRate 71, HeartRate 72]) ! 2)
     \<in> {''unsupported_type'', ''surprising'', ''expected''}"
proof -
  have h1: "fc_minSamples (FilterConfig_merge None (Some 3) None) = 3"
    by (simp add: FilterConfig_merge_def)
  have h2: "(2::nat) < length [HeartRate 70, HeartRate 71, HeartRate 72]"
    by simp
  show ?thesis
    using h1 h2 C10_first_n_minus_one_calls_warmup [OF h1 h2] by simp
qed

section \<open>CfCCell: the closed-form relaxation\<close>

lemma fold_upd_length:
  "length (fold (\<lambda>i ys. ys[i := h i ys]) is xs) = length xs"
  by (induction "is" arbitrary: xs) simp_all

lemma fold_upd_nth:
  "n \<le> length xs \<Longrightarrow>
     fold (\<lambda>i ys. ys[i := g i (ys ! i)]) [0..<n] xs ! j =
       (if j < n then g j (xs ! j) else xs ! j)"
proof (induction n arbitrary: j)
  case 0
  then show ?case by simp
next
  case (Suc n)
  then have le: "n \<le> length xs" and lt: "n < length xs" by simp_all
  let ?ys = "fold (\<lambda>i ys. ys[i := g i (ys ! i)]) [0..<n] xs"
  have len: "length ?ys = length xs" by (rule fold_upd_length)
  have ih: "?ys ! k = (if k < n then g k (xs ! k) else xs ! k)" for k
    by (rule Suc.IH [OF le])
  have "fold (\<lambda>i ys. ys[i := g i (ys ! i)]) [0..<Suc n] xs = ?ys[n := g n (?ys ! n)]"
    by simp
  then show ?case
    using ih [of n] ih [of j] lt len by (cases "j = n") (simp_all add: nth_list_update)
qed

lemma tanh_abs_bounds: "0 \<le> tanh \<bar>x::real\<bar> \<and> tanh \<bar>x\<bar> < 1"
  using tanh_real_lt_1 [of "\<bar>x\<bar>"] by simp

lemma targetTau_pos:
  assumes "0 < cc_tauMin cfg" "0 < cc_tauMax cfg"
  shows "0 < targetTau cfg obs st"
proof -
  define nd where "nd = tanh \<bar>obs - st\<bar>"
  have nd: "0 \<le> nd" "nd < 1" using tanh_abs_bounds [of "obs - st"] by (simp_all add: nd_def)
  have "targetTau cfg obs st = (1 - nd) * cc_tauMax cfg + nd * cc_tauMin cfg"
    by (simp add: targetTau_def nd_def Let_def algebra_simps)
  moreover have "0 < (1 - nd) * cc_tauMax cfg" using nd assms by simp
  moreover have "0 \<le> nd * cc_tauMin cfg" using nd assms by simp
  ultimately show ?thesis by linarith
qed

lemma updateEquilibrium_simps:
  "cell_config (updateEquilibrium c obs) = cell_config c"
  "cell_state (updateEquilibrium c obs) = cell_state c"
  "cell_tau (updateEquilibrium c obs) = cell_tau c"
  "cell_lastTimestamp (updateEquilibrium c obs) = cell_lastTimestamp c"
  "length (cell_equilibrium (updateEquilibrium c obs)) = length (cell_equilibrium c)"
  by (simp_all add: updateEquilibrium_def Let_def fold_upd_length)

lemma updateTau_simps:
  "cell_config (updateTau c obs) = cell_config c"
  "cell_state (updateTau c obs) = cell_state c"
  "cell_equilibrium (updateTau c obs) = cell_equilibrium c"
  "cell_lastTimestamp (updateTau c obs) = cell_lastTimestamp c"
  "length (cell_tau (updateTau c obs)) = length (cell_tau c)"
  by (simp_all add: updateTau_def fold_upd_length)

lemma updateTau_pos:
  assumes "0 < cc_tauMin (cell_config c)" "0 < cc_tauMax (cell_config c)"
    and "length (cell_tau c) = cc_stateDim (cell_config c)"
    and "\<forall>t \<in> set (cell_tau c). 0 < t"
  shows "\<forall>t \<in> set (cell_tau (updateTau c obs)). 0 < t"
proof -
  let ?n = "min (length obs) (cc_stateDim (cell_config c))"
  let ?g = "\<lambda>i old. (1/10) * targetTau (cell_config c) (obs ! i) (cell_state c ! i) + (9/10) * old"
  have tau': "cell_tau (updateTau c obs) = fold (\<lambda>i ys. ys[i := ?g i (ys ! i)]) [0..<?n] (cell_tau c)"
    by (simp add: updateTau_def)
  have le: "?n \<le> length (cell_tau c)" using assms(3) by simp
  have "0 < cell_tau (updateTau c obs) ! j" if "j < length (cell_tau c)" for j
  proof -
    have old: "0 < cell_tau c ! j" using assms(4) that by simp
    have tt: "0 < targetTau (cell_config c) (obs ! j) (cell_state c ! j)"
      by (rule targetTau_pos [OF assms(1,2)])
    have "cell_tau (updateTau c obs) ! j =
            (if j < ?n then ?g j (cell_tau c ! j) else cell_tau c ! j)"
      unfolding tau' by (rule fold_upd_nth [OF le, where g = ?g])
    then show ?thesis using old tt by simp
  qed
  then show ?thesis
    by (metis in_set_conv_nth updateTau_simps(5))
qed

lemma relax_length: "length (relax st eq decay) = length st"
  by (simp add: relax_def vectorAdd_def vectorMultiply_def)

lemma relax_nth:
  assumes "i < length st" "length eq = length st" "length decay = length st"
  shows "relax st eq decay ! i = st ! i * decay ! i + eq ! i * (1 - decay ! i)"
  using assms by (simp add: relax_def vectorAdd_def vectorMultiply_def)

lemma decay_bounds:
  assumes "0 < t" "0 \<le> dt"
  shows "0 < exp (- dt / t) \<and> exp (- dt / t) \<le> (1::real)"
proof -
  have "- dt / t \<le> 0" using assms by (simp add: field_simps)
  then show ?thesis by simp
qed

lemma convex_between:
  fixes s e d :: real
  assumes "0 < d" "d \<le> 1"
  shows "min s e \<le> s * d + e * (1 - d) \<and> s * d + e * (1 - d) \<le> max s e"
proof -
  have d: "0 \<le> d" "0 \<le> 1 - d" using assms by simp_all
  have lo: "min s e * d \<le> s * d" "min s e * (1 - d) \<le> e * (1 - d)"
    using d by (simp_all add: mult_right_mono)
  have hi: "s * d \<le> max s e * d" "e * (1 - d) \<le> max s e * (1 - d)"
    using d by (simp_all add: mult_right_mono)
  have "min s e = min s e * d + min s e * (1 - d)" "max s e = max s e * d + max s e * (1 - d)"
    by (simp_all add: algebra_simps)
  then show ?thesis using lo hi by linarith
qed


lemma decay_factors_length: "length (decay_factors dt tau) = length tau"
  by (simp add: decay_factors_def)

lemma decay_factors_nth: "i < length tau \<Longrightarrow> decay_factors dt tau ! i = exp (- dt / tau ! i)"
  by (simp add: decay_factors_def)

lemma step_dt_pos: "0 < step_dt c ts"
  by (simp add: step_dt_def less_max_iff_disj split: option.splits)

lemma predict_dt_nonneg: "0 \<le> predict_dt l ft"
  by (simp add: predict_dt_def)

lemma CfCCell_step_fields:
  "cell_config (snd (CfCCell_step c obs ts)) = cell_config c"
  "cell_lastTimestamp (snd (CfCCell_step c obs ts)) = Some ts"
  "cell_state (snd (CfCCell_step c obs ts)) = fst (CfCCell_step c obs ts)"
  "cell_tau (snd (CfCCell_step c obs ts)) = cell_tau (updateTau c obs)"
  "cell_equilibrium (snd (CfCCell_step c obs ts)) = cell_equilibrium (updateEquilibrium c obs)"
  "fst (CfCCell_step c obs ts) =
     relax (cell_state c) (cell_equilibrium (updateEquilibrium c obs))
       (decay_factors (step_dt c ts) (cell_tau (updateTau c obs)))"
  by (simp_all add: CfCCell_step_def Let_def updateTau_def updateEquilibrium_def step_dt_def)

lemma CfCCell_step_ok:
  assumes "cell_ok c"
  shows "cell_ok (snd (CfCCell_step c obs ts))"
proof -
  have pos: "\<forall>t \<in> set (cell_tau (updateTau c obs)). 0 < t"
    using assms by (intro updateTau_pos) (simp_all add: cell_ok_def)
  show ?thesis
    using assms pos unfolding cell_ok_def CfCCell_step_fields
    by (simp add: relax_length updateTau_simps updateEquilibrium_simps)
qed

lemma decay_tendsto_0:
  assumes "0 < (t::real)"
  shows "((\<lambda>dt. exp (- dt / t)) \<longlongrightarrow> 0) at_top"
proof -
  have "LIM dt at_top. (- 1 / t) * dt :> at_bot"
    by (rule filterlim_tendsto_neg_mult_at_bot [OF tendsto_const _ filterlim_ident])
       (use assms in simp)
  then have "LIM dt at_top. - dt / t :> at_bot"
    by (simp add: field_simps)
  then show ?thesis
    by (rule filterlim_compose [OF exp_at_bot])
qed

lemma relax_tendsto_equilibrium:
  assumes "0 < (t::real)"
  shows "((\<lambda>dt. s * exp (- dt / t) + e * (1 - exp (- dt / t))) \<longlongrightarrow> e) at_top"
proof -
  have "((\<lambda>dt. s * exp (- dt / t) + e * (1 - exp (- dt / t))) \<longlongrightarrow> s * 0 + e * (1 - 0)) at_top"
    by (intro tendsto_intros decay_tendsto_0 [OF assms])
  then show ?thesis by simp
qed

lemma gap_at_top: "LIM ft at_top. max (ft - l) (m::real) :> at_top"
proof -
  have "LIM ft at_top. - l + ft :> at_top"
    by (rule filterlim_tendsto_add_at_top [OF tendsto_const filterlim_ident])
  then show ?thesis
    by (rule filterlim_at_top_mono) (simp add: eventually_at_top_linorder)
qed

lemma CfCCell_predict_nth:
  assumes "cell_ok c" "i < cc_stateDim (cell_config c)" "cell_lastTimestamp c = Some l"
  shows "CfCCell_predict c ft ! i =
           cell_state c ! i * exp (- predict_dt l ft / cell_tau c ! i) +
           cell_equilibrium c ! i * (1 - exp (- predict_dt l ft / cell_tau c ! i))"
  using assms
  by (simp add: cell_ok_def CfCCell_predict_def Let_def relax_nth decay_factors_length
      decay_factors_nth)

lemma CfCCell_step_nth:
  assumes "cell_ok c" "i < cc_stateDim (cell_config c)"
  shows "fst (CfCCell_step c obs ts) ! i =
           cell_state c ! i * exp (- step_dt c ts / cell_tau (updateTau c obs) ! i) +
           cell_equilibrium (updateEquilibrium c obs) ! i *
             (1 - exp (- step_dt c ts / cell_tau (updateTau c obs) ! i))"
  using assms unfolding CfCCell_step_fields
  by (simp add: cell_ok_def relax_nth decay_factors_length decay_factors_nth
      updateTau_simps updateEquilibrium_simps)

lemma CfCCell_predict_tendsto:
  assumes "cell_ok c" "i < cc_stateDim (cell_config c)" "cell_lastTimestamp c = Some l"
  shows "((\<lambda>ft. CfCCell_predict c ft ! i) \<longlongrightarrow> cell_equilibrium c ! i) at_top"
proof -
  have t: "0 < cell_tau c ! i" using assms(1,2) by (simp add: cell_ok_def)
  have "((\<lambda>ft. cell_state c ! i * exp (- max (ft - l) 0 / cell_tau c ! i) +
           cell_equilibrium c ! i * (1 - exp (- max (ft - l) 0 / cell_tau c ! i)))
         \<longlongrightarrow> cell_equilibrium c ! i) at_top"
    by (rule filterlim_compose [OF relax_tendsto_equilibrium [OF t] gap_at_top])
  then show ?thesis
    by (simp add: CfCCell_predict_nth [OF assms] predict_dt_def)
qed

lemma CfCCell_step_tendsto:
  assumes "cell_ok c" "i < cc_stateDim (cell_config c)" "cell_lastTimestamp c = Some l"
  shows "((\<lambda>ts. fst (CfCCell_step c obs ts) ! i)
           \<longlongrightarrow> cell_equilibrium (updateEquilibrium c obs) ! i) at_top"
proof -
  have "cell_ok (snd (CfCCell_step c obs 0))" by (rule CfCCell_step_ok [OF assms(1)])
  then have t: "0 < cell_tau (updateTau c obs) ! i"
    using assms(2) by (simp add: cell_ok_def CfCCell_step_fields)
  have "((\<lambda>ts. cell_state c ! i * exp (- max (ts - l) (1/10000) / cell_tau (updateTau c obs) ! i) +
           cell_equilibrium (updateEquilibrium c obs) ! i *
             (1 - exp (- max (ts - l) (1/10000) / cell_tau (updateTau c obs) ! i)))
         \<longlongrightarrow> cell_equilibrium (updateEquilibrium c obs) ! i) at_top"
    by (rule filterlim_compose [OF relax_tendsto_equilibrium [OF t] gap_at_top])
  then show ?thesis
    by (simp add: CfCCell_step_nth [OF assms(1,2)] step_dt_def assms(3))
qed

lemma CfCCell_predict_now_nth:
  assumes "cell_ok c" "i < cc_stateDim (cell_config c)" "cell_lastTimestamp c = Some l"
    and "ft \<le> l"
  shows "CfCCell_predict c ft ! i = cell_state c ! i"
  using assms(4) by (simp add: CfCCell_predict_nth [OF assms(1-3)] predict_dt_def max_def)

lemma CfCCell_predict_tendsto_state:
  assumes "cell_ok c" "i < cc_stateDim (cell_config c)" "cell_lastTimestamp c = Some l"
  shows "((\<lambda>ft. CfCCell_predict c ft ! i) \<longlongrightarrow> cell_state c ! i) (at l)"
proof -
  have "0 < cell_tau c ! i" using assms(1,2) by (simp add: cell_ok_def)
  then have t: "cell_tau c ! i \<noteq> 0" by simp
  have "((\<lambda>ft. cell_state c ! i * exp (- max (ft - l) 0 / cell_tau c ! i) +
           cell_equilibrium c ! i * (1 - exp (- max (ft - l) 0 / cell_tau c ! i)))
         \<longlongrightarrow> cell_state c ! i * exp (- max (l - l) 0 / cell_tau c ! i) +
           cell_equilibrium c ! i * (1 - exp (- max (l - l) 0 / cell_tau c ! i))) (at l)"
    by (intro tendsto_intros t) 
  then show ?thesis
    by (simp add: CfCCell_predict_nth [OF assms] predict_dt_def)
qed

lemma step_between:
  assumes "cell_ok c" and "i < cc_stateDim (cell_config c)"
  shows "0 < step_dt c ts \<and>
         0 < cell_tau (snd (CfCCell_step c obs ts)) ! i \<and>
         decay_factors (step_dt c ts) (cell_tau (snd (CfCCell_step c obs ts))) ! i =
           exp (- step_dt c ts / cell_tau (snd (CfCCell_step c obs ts)) ! i) \<and>
         0 < decay_factors (step_dt c ts) (cell_tau (snd (CfCCell_step c obs ts))) ! i \<and>
         decay_factors (step_dt c ts) (cell_tau (snd (CfCCell_step c obs ts))) ! i \<le> 1 \<and>
         fst (CfCCell_step c obs ts) ! i =
           cell_state c ! i *
             decay_factors (step_dt c ts) (cell_tau (snd (CfCCell_step c obs ts))) ! i +
           cell_equilibrium (snd (CfCCell_step c obs ts)) ! i *
             (1 - decay_factors (step_dt c ts) (cell_tau (snd (CfCCell_step c obs ts))) ! i) \<and>
         min (cell_state c ! i) (cell_equilibrium (snd (CfCCell_step c obs ts)) ! i)
           \<le> fst (CfCCell_step c obs ts) ! i \<and>
         fst (CfCCell_step c obs ts) ! i
           \<le> max (cell_state c ! i) (cell_equilibrium (snd (CfCCell_step c obs ts)) ! i)"
proof -
  let ?n = "cc_stateDim (cell_config c)"
  let ?tau' = "cell_tau (updateTau c obs)"
  let ?eq' = "cell_equilibrium (updateEquilibrium c obs)"
  let ?dt = "step_dt c ts"
  let ?d = "decay_factors ?dt ?tau' ! i"
  have len: "length (cell_tau c) = ?n" "length (cell_equilibrium c) = ?n"
    using assms(1) by (simp_all add: cell_ok_def)
  have ok': "cell_ok (snd (CfCCell_step c obs ts))" by (rule CfCCell_step_ok [OF assms(1)])
  have len': "length ?tau' = ?n"
    using len by (simp add: updateTau_simps)
  have tau'_pos: "0 < ?tau' ! i"
    using ok' assms(2) len' by (simp add: cell_ok_def CfCCell_step_fields)
  have d_eq: "?d = exp (- ?dt / ?tau' ! i)"
    using assms(2) len' by (simp add: decay_factors_nth)
  have d_b: "0 < ?d \<and> ?d \<le> 1"
    unfolding d_eq using decay_bounds [OF tau'_pos] step_dt_pos [of c ts] by simp
  have s'_eq: "fst (CfCCell_step c obs ts) ! i = cell_state c ! i * ?d + ?eq' ! i * (1 - ?d)"
    unfolding d_eq by (rule CfCCell_step_nth [OF assms])
  have "0 < ?dt \<and> 0 < ?tau' ! i \<and> ?d = exp (- ?dt / ?tau' ! i) \<and> 0 < ?d \<and> ?d \<le> 1 \<and>
      fst (CfCCell_step c obs ts) ! i = cell_state c ! i * ?d + ?eq' ! i * (1 - ?d) \<and>
      min (cell_state c ! i) (?eq' ! i) \<le> fst (CfCCell_step c obs ts) ! i \<and>
      fst (CfCCell_step c obs ts) ! i \<le> max (cell_state c ! i) (?eq' ! i)"
    using step_dt_pos [of c ts] tau'_pos d_eq d_b s'_eq
      convex_between [of ?d "cell_state c ! i" "?eq' ! i"] by simp
  then show ?thesis
    unfolding CfCCell_step_fields(4,5) .
qed

lemma predict_between:
  assumes "cell_ok c" and "i < cc_stateDim (cell_config c)"
    and "cell_lastTimestamp c = Some l"
  shows "0 \<le> predict_dt l ft \<and> 0 < cell_tau c ! i \<and>
      decay_factors (predict_dt l ft) (cell_tau c) ! i = exp (- predict_dt l ft / cell_tau c ! i) \<and>
      0 < decay_factors (predict_dt l ft) (cell_tau c) ! i \<and>
      decay_factors (predict_dt l ft) (cell_tau c) ! i \<le> 1 \<and>
      CfCCell_predict c ft ! i =
        cell_state c ! i * decay_factors (predict_dt l ft) (cell_tau c) ! i +
        cell_equilibrium c ! i * (1 - decay_factors (predict_dt l ft) (cell_tau c) ! i) \<and>
      min (cell_state c ! i) (cell_equilibrium c ! i) \<le> CfCCell_predict c ft ! i \<and>
      CfCCell_predict c ft ! i \<le> max (cell_state c ! i) (cell_equilibrium c ! i)"
proof -
  let ?e = "decay_factors (predict_dt l ft) (cell_tau c) ! i"
  have len: "length (cell_tau c) = cc_stateDim (cell_config c)"
    and tpos: "\<forall>t \<in> set (cell_tau c). 0 < t"
    using assms(1) by (simp_all add: cell_ok_def)
  have tau_pos: "0 < cell_tau c ! i" using tpos assms(2) len by simp
  have e_eq: "?e = exp (- predict_dt l ft / cell_tau c ! i)"
    using assms(2) len by (simp add: decay_factors_nth)
  have e_b: "0 < ?e \<and> ?e \<le> 1"
    unfolding e_eq using decay_bounds [OF tau_pos predict_dt_nonneg [of l ft]] by simp
  have p_eq: "CfCCell_predict c ft ! i =
      cell_state c ! i * ?e + cell_equilibrium c ! i * (1 - ?e)"
    unfolding e_eq by (rule CfCCell_predict_nth [OF assms])
  show ?thesis
    using predict_dt_nonneg [of l ft] tau_pos e_eq e_b p_eq
      convex_between [of ?e "cell_state c ! i" "cell_equilibrium c ! i"] by simp
qed

lemma cell_ok_new:
  assumes "0 < cc_tauMin cfg" "0 < cc_tauMax cfg"
  shows "cell_ok (CfCCell_new cfg)"
  using assms by (simp add: cell_ok_def CfCCell_new_def zeros_def)

text \<open>
  C4.  Let \<open>c\<close> be a well-formed cell (positive time constants, within positive configured
  bounds) and \<open>i\<close> one of its components.

  \<^item> \<open>step\<close>: the elapsed time is positive; with \<open>c'\<close> the cell after the step (whose time
    constants and equilibrium are the ones the step has just updated and uses), the decay
    factor \<open>d = exp (- dt / tau' ! i)\<close> lies in \<open>(0, 1]\<close> and the new state component is
    \<open>state ! i * d + equilibrium' ! i * (1 - d)\<close>, between the previous state component and
    the equilibrium, inclusive.
  \<^item> \<open>predict\<close>, once the cell has a timestamp \<open>l\<close>: the elapsed time is non-negative, the
    decay factor lies in \<open>(0, 1]\<close>, and the predicted component lies between the state and
    the equilibrium, inclusive.
  \<^item> As the timestamp grows without bound the predicted component and the stepped
    component tend to the equilibrium; as the predicted timestamp tends to \<open>l\<close> the predicted
    component tends to the state component.
\<close>

theorem C4_state_between_previous_and_equilibrium:
  assumes "cell_ok c" and "i < cc_stateDim (cell_config c)"
  shows
    "(let dt = step_dt c ts;
          c' = snd (CfCCell_step c obs ts);
          s' = fst (CfCCell_step c obs ts);
          d = decay_factors dt (cell_tau c') ! i
      in 0 < dt \<and> 0 < cell_tau c' ! i \<and> d = exp (- dt / cell_tau c' ! i) \<and>
         0 < d \<and> d \<le> 1 \<and>
         s' ! i = cell_state c ! i * d + cell_equilibrium c' ! i * (1 - d) \<and>
         min (cell_state c ! i) (cell_equilibrium c' ! i) \<le> s' ! i \<and>
         s' ! i \<le> max (cell_state c ! i) (cell_equilibrium c' ! i)) \<and>
     (\<forall>l. cell_lastTimestamp c = Some l \<longrightarrow>
        (let dt = predict_dt l ft;
             p = CfCCell_predict c ft;
             d = decay_factors dt (cell_tau c) ! i
         in 0 \<le> dt \<and> 0 < cell_tau c ! i \<and> d = exp (- dt / cell_tau c ! i) \<and>
            0 < d \<and> d \<le> 1 \<and>
            p ! i = cell_state c ! i * d + cell_equilibrium c ! i * (1 - d) \<and>
            min (cell_state c ! i) (cell_equilibrium c ! i) \<le> p ! i \<and>
            p ! i \<le> max (cell_state c ! i) (cell_equilibrium c ! i)) \<and>
        ((\<lambda>t. CfCCell_predict c t ! i) \<longlongrightarrow> cell_equilibrium c ! i) at_top \<and>
        ((\<lambda>t. CfCCell_predict c t ! i) \<longlongrightarrow> cell_state c ! i) (at l) \<and>
        ((\<lambda>t. fst (CfCCell_step c obs t) ! i)
           \<longlongrightarrow> cell_equilibrium (snd (CfCCell_step c obs ts)) ! i) at_top)"
proof -
  have lim3: "((\<lambda>t. fst (CfCCell_step c obs t) ! i)
           \<longlongrightarrow> cell_equilibrium (snd (CfCCell_step c obs ts)) ! i) at_top"
    if "cell_lastTimestamp c = Some l" for l
    unfolding CfCCell_step_fields(5) by (rule CfCCell_step_tendsto [OF assms that])
  show ?thesis
    unfolding Let_def
    using step_between [OF assms, of ts obs] predict_between [OF assms, of _ ft]
      CfCCell_predict_tendsto [OF assms] CfCCell_predict_tendsto_state [OF assms] lim3
    by blast
qed

theorem C4_state_between_witness:
  "cell_ok (snd (CfCCell_step (CfCCell_new (CfCConfig_merge (Some 4) (Some 60) (Some 3600) None))
      (obsVector 1) 0)) \<and>
   0 < cc_stateDim (cell_config (snd (CfCCell_step
      (CfCCell_new (CfCConfig_merge (Some 4) (Some 60) (Some 3600) None)) (obsVector 1) 0))) \<and>
   cell_lastTimestamp (snd (CfCCell_step
      (CfCCell_new (CfCConfig_merge (Some 4) (Some 60) (Some 3600) None)) (obsVector 1) 0)) = Some 0 \<and>
   CfCCell_predict (snd (CfCCell_step
      (CfCCell_new (CfCConfig_merge (Some 4) (Some 60) (Some 3600) None)) (obsVector 1) 0)) 3600 ! 0
     \<le> max (cell_state (snd (CfCCell_step
            (CfCCell_new (CfCConfig_merge (Some 4) (Some 60) (Some 3600) None)) (obsVector 1) 0)) ! 0)
          (cell_equilibrium (snd (CfCCell_step
            (CfCCell_new (CfCConfig_merge (Some 4) (Some 60) (Some 3600) None)) (obsVector 1) 0)) ! 0)"
proof -
  let ?fresh = "CfCCell_new (CfCConfig_merge (Some 4) (Some 60) (Some 3600) None)"
  let ?c = "snd (CfCCell_step ?fresh (obsVector 1) 0)"
  have ok0: "cell_ok ?fresh"
    by (rule cell_ok_new) (simp_all add: CfCConfig_merge_def)
  have ok: "cell_ok ?c" by (rule CfCCell_step_ok [OF ok0])
  have i: "0 < cc_stateDim (cell_config ?c)"
    by (simp add: CfCCell_step_fields CfCCell_new_def CfCConfig_merge_def)
  have l: "cell_lastTimestamp ?c = Some 0"
    by (simp add: CfCCell_step_fields)
  show ?thesis
    using ok i l C4_state_between_previous_and_equilibrium [OF ok i, of 0 "obsVector 1" 3600]
    unfolding Let_def by blast
qed

section \<open>HealthStateEstimator: the loops over the dimensions\<close>

lemma est_ok_good: "est_ok e \<longleftrightarrow> (\<forall>d \<in> set (hsc_dimensions (est_config e)). good (est_cells e) (dc_name d))"
  by (simp add: est_ok_def good_def)

lemma update_dims_good:
  assumes "\<forall>d \<in> set ds. good cells (dc_name d)"
  shows "\<exists>cells' dm' cf'.
           update_dims ds obs ts (cells, dm, cf) = Inr (cells', dm', cf') \<and>
           (\<forall>n. good cells n \<longrightarrow> good cells' n) \<and>
           ((\<forall>n. synced ts cells dm n) \<longrightarrow> (\<forall>n. synced ts cells' dm' n)) \<and>
           dom dm' = dom dm \<union> dc_name ` set ds"
  using assms
proof (induction ds arbitrary: cells dm cf)
  case Nil
  then show ?case by simp
next
  case (Cons d ds)
  from Cons.prems obtain c where c: "cells (dc_name d) = Some c" "cell_ok c"
    "cc_stateDim (cell_config c) = 4"
    by (auto simp: good_def)
  define v where "v = (case obs (dc_name d) of None \<Rightarrow> 0 | Some v \<Rightarrow> v)"
  define st where "st = fst (CfCCell_step c (obsVector v) ts)"
  define c' where "c' = snd (CfCCell_step c (obsVector v) ts)"
  define cells1 where "cells1 = cells(dc_name d \<mapsto> c')"
  define dm1 where "dm1 = dm(dc_name d \<mapsto> aggregate st)"
  define cf1 where "cf1 = cf(dc_name d \<mapsto> exp (- (1/10) / avgTau (getTau c')))"
  have unfold: "update_dims (d # ds) obs ts (cells, dm, cf) = update_dims ds obs ts (cells1, dm1, cf1)"
    by (simp add: c(1) v_def st_def c'_def cells1_def dm1_def cf1_def Let_def split: prod.splits)
  have c'ok: "cell_ok c'" "cc_stateDim (cell_config c') = 4" "cell_lastTimestamp c' = Some ts"
    "cell_state c' = st"
    using CfCCell_step_ok [OF c(2)] c(3) by (simp_all add: c'_def st_def CfCCell_step_fields)
  have g1: "good cells1 n" if "good cells n" for n
    using that c'ok by (auto simp: good_def cells1_def)
  then have "\<forall>d \<in> set ds. good cells1 (dc_name d)" using Cons.prems by simp
  from Cons.IH [OF this, of dm1 cf1] obtain cells' dm' cf' where
    r: "update_dims ds obs ts (cells1, dm1, cf1) = Inr (cells', dm', cf')"
    and g: "\<forall>n. good cells1 n \<longrightarrow> good cells' n"
    and s: "(\<forall>n. synced ts cells1 dm1 n) \<longrightarrow> (\<forall>n. synced ts cells' dm' n)"
    and dmn: "dom dm' = dom dm1 \<union> dc_name ` set ds"
    by blast
  have s1: "synced ts cells1 dm1 n" if "\<forall>n. synced ts cells dm n" for n
    using that [rule_format, of n] c'ok
    by (auto simp: synced_def cells1_def dm1_def split: option.splits)
  have D: "dom dm' = dom dm \<union> dc_name ` set (d # ds)"
    using dmn by (auto simp: dm1_def)
  have G: "\<forall>n. good cells n \<longrightarrow> good cells' n" using g g1 by blast
  have S: "(\<forall>n. synced ts cells dm n) \<longrightarrow> (\<forall>n. synced ts cells' dm' n)"
    using s s1 by blast
  show ?case
    unfolding unfold r
    by (intro exI [of _ cells'] exI [of _ dm'] exI [of _ cf'] conjI refl G S D)
qed

lemma predict_dims_result:
  assumes "\<forall>d \<in> set ds. good cells (dc_name d)"
  shows "\<exists>dm' cf'.
           predict_dims ds cells lut ft (dm, cf) = Inr (dm', cf') \<and>
           (\<forall>n. dm' n = (if n \<in> dc_name ` set ds
                          then Some (aggregate (CfCCell_predict (the (cells n)) ft))
                          else dm n)) \<and>
           (\<forall>n. cf' n = (if n \<in> dc_name ` set ds
                          then Some (exp (- horizon lut ft / avgTau (cell_tau (the (cells n)))))
                          else cf n))"
  using assms
proof (induction ds arbitrary: dm cf)
  case Nil
  then show ?case by simp
next
  case (Cons d ds)
  from Cons.prems obtain c where c: "cells (dc_name d) = Some c"
    by (auto simp: good_def)
  define dm1 where "dm1 = dm(dc_name d \<mapsto> aggregate (CfCCell_predict c ft))"
  define cf1 where "cf1 = cf(dc_name d \<mapsto> exp (- horizon lut ft / avgTau (getTau c)))"
  have unfold: "predict_dims (d # ds) cells lut ft (dm, cf) = predict_dims ds cells lut ft (dm1, cf1)"
    by (simp add: c dm1_def cf1_def Let_def)
  from Cons.prems have "\<forall>d \<in> set ds. good cells (dc_name d)" by simp
  from Cons.IH [OF this, of dm1 cf1] obtain dm' cf' where
    r: "predict_dims ds cells lut ft (dm1, cf1) = Inr (dm', cf')"
    and d: "\<forall>n. dm' n = (if n \<in> dc_name ` set ds
                          then Some (aggregate (CfCCell_predict (the (cells n)) ft))
                          else dm1 n)"
    and f: "\<forall>n. cf' n = (if n \<in> dc_name ` set ds
                          then Some (exp (- horizon lut ft / avgTau (cell_tau (the (cells n)))))
                          else cf1 n)"
    by blast
  have d': "\<forall>n. dm' n = (if n \<in> dc_name ` set (d # ds)
                          then Some (aggregate (CfCCell_predict (the (cells n)) ft))
                          else dm n)"
    using d c by (auto simp: dm1_def)
  have f': "\<forall>n. cf' n = (if n \<in> dc_name ` set (d # ds)
                          then Some (exp (- horizon lut ft / avgTau (cell_tau (the (cells n)))))
                          else cf n)"
    using f c by (auto simp: cf1_def getTau_def)
  show ?case
    unfolding unfold r
    by (intro exI [of _ dm'] exI [of _ cf'] conjI refl d' f')
qed

lemma CfCCell_predict_now:
  assumes "cell_ok c" "cell_lastTimestamp c = Some l"
  shows "CfCCell_predict c l = cell_state c"
proof (rule nth_equalityI)
  show len: "length (CfCCell_predict c l) = length (cell_state c)"
    using assms(2) by (simp add: CfCCell_predict_def Let_def relax_length)
  fix i assume "i < length (CfCCell_predict c l)"
  then have "i < cc_stateDim (cell_config c)" using len assms(1) by (simp add: cell_ok_def)
  then show "CfCCell_predict c l ! i = cell_state c ! i"
    by (rule CfCCell_predict_now_nth [OF assms(1) _ assms(2)]) simp
qed


lemma fold_map_upd:
  "(n \<in> k ` set ds \<longrightarrow> (\<exists>d \<in> set ds. k d = n \<and> fold (\<lambda>d cs. cs(k d \<mapsto> f d)) ds m n = Some (f d))) \<and>
   (n \<notin> k ` set ds \<longrightarrow> fold (\<lambda>d cs. cs(k d \<mapsto> f d)) ds m n = m n)"
proof (induction ds arbitrary: m)
  case Nil
  then show ?case by simp
next
  case (Cons d ds)
  show ?case
  proof (cases "n \<in> k ` set ds")
    case True
    then show ?thesis using Cons.IH [of "m(k d \<mapsto> f d)"] by auto
  next
    case False
    then show ?thesis using Cons.IH [of "m(k d \<mapsto> f d)"] by auto
  qed
qed

lemma est_ok_new:
  assumes "config_ok cfg"
  shows "est_ok (HealthStateEstimator_new cfg)"
  unfolding est_ok_good
proof
  fix d assume d: "d \<in> set (hsc_dimensions (est_config (HealthStateEstimator_new cfg)))"
  then have din: "d \<in> set (hsc_dimensions cfg)" by (simp add: HealthStateEstimator_new_def)
  let ?f = "\<lambda>d. CfCCell_new (CfCConfig_merge (Some 4) (Some (dc_tauMin d)) (Some (dc_tauMax d)) None)"
  have "dc_name d \<in> dc_name ` set (hsc_dimensions cfg)" using din by simp
  with fold_map_upd [of "dc_name d" dc_name "hsc_dimensions cfg" ?f Map.empty]
  obtain d' where d': "d' \<in> set (hsc_dimensions cfg)"
    "est_cells (HealthStateEstimator_new cfg) (dc_name d) = Some (?f d')"
    by (auto simp: HealthStateEstimator_new_def)
  have pos: "0 < dc_tauMin d'" "0 < dc_tauMax d'"
    using assms d'(1) by (simp_all add: config_ok_def)
  have "cell_ok (?f d')"
    by (rule cell_ok_new) (simp_all add: CfCConfig_merge_def pos)
  moreover have "cc_stateDim (cell_config (?f d')) = 4"
    by (simp add: CfCCell_new_def CfCConfig_merge_def)
  ultimately show "good (est_cells (HealthStateEstimator_new cfg)) (dc_name d)"
    using d'(2) by (simp add: good_def)
qed

lemma update_ok:
  assumes "est_ok e"
  shows "\<exists>hs e'. HealthStateEstimator_update e obs t = Inr (hs, e') \<and>
           est_ok e' \<and> est_config e' = est_config e \<and> est_lastUpdateTime e' = Some t \<and>
           hs_timestamp hs = t \<and>
           dom (hs_dimensions hs) = dc_name ` set (hsc_dimensions (est_config e)) \<and>
           (\<forall>n. synced t (est_cells e') (hs_dimensions hs) n)"
proof -
  let ?ds = "hsc_dimensions (est_config e)"
  have g0: "\<forall>d \<in> set ?ds. good (est_cells e) (dc_name d)"
    using assms by (simp add: est_ok_good)
  from update_dims_good [OF g0, of obs t Map.empty Map.empty]
  obtain cells' dm' cf' where
    r: "update_dims ?ds obs t (est_cells e, Map.empty, Map.empty) = Inr (cells', dm', cf')"
    and g: "\<forall>n. good (est_cells e) n \<longrightarrow> good cells' n"
    and s: "(\<forall>n. synced t (est_cells e) Map.empty n) \<longrightarrow> (\<forall>n. synced t cells' dm' n)"
    and d: "dom dm' = dom (Map.empty :: string \<rightharpoonup> real) \<union> dc_name ` set ?ds"
    by blast
  have s': "\<forall>n. synced t cells' dm' n" using s by (simp add: synced_def)
  let ?hs = "\<lparr>hs_timestamp = t, hs_dimensions = dm', hs_confidence = cf',
              hs_timeSinceUpdate = Elapsed 0\<rparr>"
  let ?e' = "e\<lparr>est_cells := cells', est_lastUpdateTime := Some t\<rparr>"
  have u: "HealthStateEstimator_update e obs t = Inr (?hs, ?e')"
    by (simp add: HealthStateEstimator_update_def r)
  have ok': "est_ok ?e'" using g g0 by (simp add: est_ok_good)
  show ?thesis
    unfolding u
    by (intro exI [of _ ?hs] exI [of _ ?e'] conjI refl ok') (use s' d in simp_all)
qed

lemma predict_ok:
  assumes "est_ok e"
  shows "\<exists>hs. HealthStateEstimator_predict e ft = Inr hs \<and>
           hs_timestamp hs = ft \<and>
           (\<forall>n. hs_dimensions hs n =
              (if n \<in> dc_name ` set (hsc_dimensions (est_config e))
               then Some (aggregate (CfCCell_predict (the (est_cells e n)) ft)) else None)) \<and>
           (\<forall>n. hs_confidence hs n =
              (if n \<in> dc_name ` set (hsc_dimensions (est_config e))
               then Some (exp (- horizon (est_lastUpdateTime e) ft /
                                 avgTau (cell_tau (the (est_cells e n))))) else None))"
proof -
  let ?ds = "hsc_dimensions (est_config e)"
  have g0: "\<forall>d \<in> set ?ds. good (est_cells e) (dc_name d)"
    using assms by (simp add: est_ok_good)
  from predict_dims_result [OF g0, of "est_lastUpdateTime e" ft Map.empty Map.empty]
  obtain dm' cf' where
    r: "predict_dims ?ds (est_cells e) (est_lastUpdateTime e) ft (Map.empty, Map.empty) = Inr (dm', cf')"
    and d: "\<forall>n. dm' n = (if n \<in> dc_name ` set ?ds
                          then Some (aggregate (CfCCell_predict (the (est_cells e n)) ft))
                          else None)"
    and f: "\<forall>n. cf' n = (if n \<in> dc_name ` set ?ds
                          then Some (exp (- horizon (est_lastUpdateTime e) ft /
                                 avgTau (cell_tau (the (est_cells e n)))))
                          else None)"
    by auto
  show ?thesis
    by (simp add: HealthStateEstimator_predict_def r d f)
qed

lemma foldl_plus: "foldl (\<lambda>a b. a + b) a xs = a + sum_list (xs :: real list)"
  by (induction xs arbitrary: a) simp_all

lemma sum_list_pos_real:
  assumes "xs \<noteq> []" "\<forall>x \<in> set xs. 0 < (x::real)"
  shows "0 < sum_list xs"
  using assms by (induction xs) (auto intro: add_pos_nonneg sum_list_nonneg less_imp_le)

lemma avgTau_pos:
  assumes "cell_ok c" "cc_stateDim (cell_config c) = 4"
  shows "0 < avgTau (cell_tau c)"
proof -
  have len: "length (cell_tau c) = 4" and pos: "\<forall>t \<in> set (cell_tau c). 0 < t"
    using assms by (simp_all add: cell_ok_def)
  then have "cell_tau c \<noteq> []" by auto
  from sum_list_pos_real [OF this pos] show ?thesis
    by (simp add: avgTau_def foldl_plus len)
qed

lemma exp_neg_div_unit:
  assumes "0 \<le> x" "0 < (a::real)"
  shows "0 < exp (- x / a) \<and> exp (- x / a) \<le> 1"
  using decay_bounds [OF assms(2,1)] .

lemma exp_pos_div_gt_one:
  assumes "x < 0" "0 < (a::real)"
  shows "1 < exp (- x / a)"
proof -
  have "0 < - x / a" using assms by (simp add: field_simps)
  then show ?thesis by simp
qed

lemma update_dims_confidence:
  assumes "\<forall>d \<in> set ds. good cells (dc_name d)"
    and "update_dims ds obs ts (cells, dm, cf) = Inr (cells', dm', cf')"
    and "\<forall>n v. cf n = Some v \<longrightarrow> 0 < v \<and> v \<le> 1"
  shows "\<forall>n v. cf' n = Some v \<longrightarrow> 0 < v \<and> v \<le> 1"
  using assms
proof (induction ds arbitrary: cells dm cf)
  case Nil
  then show ?case by simp
next
  case (Cons d ds)
  from Cons.prems(1) obtain c where c: "cells (dc_name d) = Some c" "cell_ok c"
    "cc_stateDim (cell_config c) = 4"
    by (auto simp: good_def)
  define v where "v = (case obs (dc_name d) of None \<Rightarrow> 0 | Some v \<Rightarrow> v)"
  define st where "st = fst (CfCCell_step c (obsVector v) ts)"
  define c' where "c' = snd (CfCCell_step c (obsVector v) ts)"
  define cells1 where "cells1 = cells(dc_name d \<mapsto> c')"
  define dm1 where "dm1 = dm(dc_name d \<mapsto> aggregate st)"
  define cf1 where "cf1 = cf(dc_name d \<mapsto> exp (- (1/10) / avgTau (getTau c')))"
  have unfold: "update_dims (d # ds) obs ts (cells, dm, cf) = update_dims ds obs ts (cells1, dm1, cf1)"
    by (simp add: c(1) v_def st_def c'_def cells1_def dm1_def cf1_def Let_def split: prod.splits)
  have c'ok: "cell_ok c'" "cc_stateDim (cell_config c') = 4"
    using CfCCell_step_ok [OF c(2)] c(3) by (simp_all add: c'_def CfCCell_step_fields)
  have g1: "\<forall>d \<in> set ds. good cells1 (dc_name d)"
    using Cons.prems(1) c'ok by (auto simp: good_def cells1_def)
  have new: "0 < exp (- (1/10) / avgTau (getTau c')) \<and> exp (- (1/10) / avgTau (getTau c')) \<le> 1"
    using exp_neg_div_unit [of "1/10", OF _ avgTau_pos [OF c'ok]] by (simp add: getTau_def)
  have cf1: "\<forall>n v. cf1 n = Some v \<longrightarrow> 0 < v \<and> v \<le> 1"
    using Cons.prems(3) new by (auto simp: cf1_def)
  from Cons.prems(2) have r: "update_dims ds obs ts (cells1, dm1, cf1) = Inr (cells', dm', cf')"
    by (simp only: unfold)
  show ?case by (rule Cons.IH [OF g1 r cf1])
qed

lemma update_confidence_unit_interval:
  assumes "est_ok e" "HealthStateEstimator_update e obs t = Inr (hs, e')"
    and "hs_confidence hs n = Some v"
  shows "0 < v \<and> v \<le> 1"
proof -
  let ?ds = "hsc_dimensions (est_config e)"
  have g0: "\<forall>d \<in> set ?ds. good (est_cells e) (dc_name d)"
    using assms(1) by (simp add: est_ok_good)
  from assms(2) obtain cells' dm' cf' where
    r: "update_dims ?ds obs t (est_cells e, Map.empty, Map.empty) = Inr (cells', dm', cf')"
    and hs: "hs_confidence hs = cf'"
    by (auto simp: HealthStateEstimator_update_def split: sum.splits)
  from update_dims_confidence [OF g0 r] assms(3) hs show ?thesis by simp
qed

lemma predict_confidence_unit_interval:
  assumes "est_ok e" "HealthStateEstimator_predict e ft = Inr hs"
    and "hs_confidence hs n = Some v"
    and "\<forall>l. est_lastUpdateTime e = Some l \<longrightarrow> l \<le> ft"
  shows "0 < v \<and> v \<le> 1"
proof -
  from predict_ok [OF assms(1), of ft] assms(2) have
    f: "hs_confidence hs n =
              (if n \<in> dc_name ` set (hsc_dimensions (est_config e))
               then Some (exp (- horizon (est_lastUpdateTime e) ft /
                                 avgTau (cell_tau (the (est_cells e n))))) else None)"
    by auto
  with assms(3) have n: "n \<in> dc_name ` set (hsc_dimensions (est_config e))"
    and v: "v = exp (- horizon (est_lastUpdateTime e) ft / avgTau (cell_tau (the (est_cells e n))))"
    by (auto split: if_splits)
  from n assms(1) obtain c where c: "est_cells e n = Some c" "cell_ok c"
    "cc_stateDim (cell_config c) = 4"
    by (auto simp: est_ok_def)
  have h: "0 \<le> horizon (est_lastUpdateTime e) ft"
    using assms(4) by (simp add: horizon_def split: option.splits)
  show ?thesis
    unfolding v using exp_neg_div_unit [OF h avgTau_pos [OF c(2,3)]] c(1) by simp
qed

lemma predict_past_confidence:
  assumes "est_ok e" "est_lastUpdateTime e = Some l" "l \<noteq> 0" "ft < l"
    and "d \<in> set (hsc_dimensions (est_config e))"
  shows "\<exists>hs c. HealthStateEstimator_predict e ft = Inr hs \<and>
           hs_confidence hs (dc_name d) =
             Some (exp (- (ft - l) / avgTau (cell_tau c))) \<and>
           est_cells e (dc_name d) = Some c \<and>
           1 < exp (- (ft - l) / avgTau (cell_tau c))"
proof -
  from assms(1,5) obtain c where c: "est_cells e (dc_name d) = Some c" "cell_ok c"
    "cc_stateDim (cell_config c) = 4"
    by (auto simp: est_ok_def)
  from predict_ok [OF assms(1), of ft] obtain hs where
    p: "HealthStateEstimator_predict e ft = Inr hs"
    and f: "\<forall>n. hs_confidence hs n =
              (if n \<in> dc_name ` set (hsc_dimensions (est_config e))
               then Some (exp (- horizon (est_lastUpdateTime e) ft /
                                 avgTau (cell_tau (the (est_cells e n))))) else None)"
    by blast
  have h: "horizon (est_lastUpdateTime e) ft = ft - l"
    using assms(2,3) by (simp add: horizon_def)
  have cf: "hs_confidence hs (dc_name d) = Some (exp (- (ft - l) / avgTau (cell_tau c)))"
    using f [rule_format, of "dc_name d"] assms(5) c(1) h by simp
  have gt: "1 < exp (- (ft - l) / avgTau (cell_tau c))"
    by (rule exp_pos_div_gt_one [OF _ avgTau_pos [OF c(2,3)]]) (use assms(4) in simp)
  show ?thesis using p cf c(1) gt by blast
qed

lemma predict_after_update_at_zero:
  assumes "est_ok e" "est_lastUpdateTime e = Some 0"
    and "d \<in> set (hsc_dimensions (est_config e))"
  shows "\<exists>hs. HealthStateEstimator_predict e ft = Inr hs \<and>
           hs_confidence hs (dc_name d) = Some 1 \<and>
           hs_timeSinceUpdate hs = Infinity"
proof -
  from predict_ok [OF assms(1), of ft] obtain hs where
    p: "HealthStateEstimator_predict e ft = Inr hs"
    and f: "\<forall>n. hs_confidence hs n =
              (if n \<in> dc_name ` set (hsc_dimensions (est_config e))
               then Some (exp (- horizon (est_lastUpdateTime e) ft /
                                 avgTau (cell_tau (the (est_cells e n))))) else None)"
    by blast
  have cf: "hs_confidence hs (dc_name d) = Some 1"
    using f [rule_format, of "dc_name d"] assms(2,3) by (simp add: horizon_def)
  have "hs_timeSinceUpdate hs = Infinity"
    using p assms(2) by (auto simp: HealthStateEstimator_predict_def split: sum.splits)
  then show ?thesis using p cf by blast
qed


lemma update_dims_untouched:
  assumes "update_dims ds obs ts (cells, dm, cf) = Inr (cells', dm', cf')"
    and "n \<notin> dc_name ` set ds"
  shows "cells' n = cells n"
  using assms
proof (induction ds arbitrary: cells dm cf)
  case Nil
  then show ?case by simp
next
  case (Cons d ds)
  from Cons.prems(1) obtain c where c: "cells (dc_name d) = Some c"
    by (auto split: option.splits)
  define c' where "c' = snd (CfCCell_step c (obsVector (case obs (dc_name d) of None \<Rightarrow> 0 | Some v \<Rightarrow> v)) ts)"
  from Cons.prems(1) obtain dm1 cf1 where
    r: "update_dims ds obs ts (cells(dc_name d \<mapsto> c'), dm1, cf1) = Inr (cells', dm', cf')"
    by (simp add: c c'_def Let_def split: prod.splits)
  from Cons.IH [OF r] Cons.prems(2) show ?case by simp
qed

lemma cardio_tau:
  "cell_tau (snd (CfCCell_step
      (CfCCell_new (CfCConfig_merge (Some 4) (Some 60) (Some 3600) None)) (obsVector 0) 10))
   = [2007, 2007, 2007, 2007]"
  by (simp add: CfCCell_step_fields updateTau_def CfCCell_new_def CfCConfig_merge_def
      obsVector_def targetTau_def zeros_def numeral_eq_Suc)

lemma avgTau_cardio: "avgTau [2007, 2007, 2007, 2007] = 2007"
  by (simp add: avgTau_def)

lemma default_cardio_cell:
  "est_cells (HealthStateEstimator_new DEFAULT_HEALTH_STATE_CONFIG) ''cardiovascular'' =
     Some (CfCCell_new (CfCConfig_merge (Some 4) (Some 60) (Some 3600) None))"
  by (simp add: HealthStateEstimator_new_def DEFAULT_HEALTH_STATE_CONFIG_def)

lemma config_ok_default: "config_ok DEFAULT_HEALTH_STATE_CONFIG"
  by (simp add: config_ok_def DEFAULT_HEALTH_STATE_CONFIG_def)


lemma default_update_cardio_cell:
  assumes "HealthStateEstimator_update (HealthStateEstimator_new DEFAULT_HEALTH_STATE_CONFIG)
             Map.empty t = Inr (hs, e')"
  shows "est_cells e' ''cardiovascular'' =
           Some (snd (CfCCell_step
             (CfCCell_new (CfCConfig_merge (Some 4) (Some 60) (Some 3600) None)) (obsVector 0) t))"
proof -
  let ?e = "HealthStateEstimator_new DEFAULT_HEALTH_STATE_CONFIG"
  let ?c = "CfCCell_new (CfCConfig_merge (Some 4) (Some 60) (Some 3600) None)"
  let ?d = "\<lparr>dc_name = ''cardiovascular'', dc_tauMin = 60, dc_tauMax = 3600\<rparr>"
  obtain rest where ds: "hsc_dimensions (est_config ?e) = ?d # rest"
    and nin: "''cardiovascular'' \<notin> dc_name ` set rest"
    by (simp add: HealthStateEstimator_new_def DEFAULT_HEALTH_STATE_CONFIG_def)
  from assms obtain cells' dm' cf' where
    r: "update_dims (?d # rest) Map.empty t (est_cells ?e, Map.empty, Map.empty) = Inr (cells', dm', cf')"
    and e': "est_cells e' = cells'"
    by (auto simp: HealthStateEstimator_update_def ds split: sum.splits)
  from r obtain dm1 cf1 where
    r1: "update_dims rest Map.empty t
           ((est_cells ?e)(''cardiovascular'' \<mapsto> snd (CfCCell_step ?c (obsVector 0) t)), dm1, cf1)
         = Inr (cells', dm', cf')"
    by (simp add: default_cardio_cell Let_def split: prod.splits)
  from update_dims_untouched [OF r1 nin] e' show ?thesis by simp
qed

section \<open>HealthStateEstimator: current state after an update\<close>

text \<open>
  C7.  \<open>getCurrentState\<close> of a freshly constructed estimator (no \<open>update\<close> yet) is none.
  For a well-formed estimator, \<open>update(observations, t)\<close> returns a state, and
  \<open>getCurrentState\<close> called on the estimator straight after it returns a state whose
  per-dimension values are exactly those the \<open>update\<close> returned: each cell predicts at its
  own last timestamp, the elapsed time is 0, the decay is 1.
\<close>

theorem C7_current_state_restates_update:
  "getCurrentState (HealthStateEstimator_new cfg) = Inr None \<and>
   (est_ok e \<longrightarrow>
      (\<exists>hs e' hs'. HealthStateEstimator_update e obs t = Inr (hs, e') \<and>
         getCurrentState e' = Inr (Some hs') \<and>
         hs_dimensions hs' = hs_dimensions hs))"
proof
  show "getCurrentState (HealthStateEstimator_new cfg) = Inr None"
    by (simp add: getCurrentState_def HealthStateEstimator_new_def)
next
  show "est_ok e \<longrightarrow>
      (\<exists>hs e' hs'. HealthStateEstimator_update e obs t = Inr (hs, e') \<and>
         getCurrentState e' = Inr (Some hs') \<and>
         hs_dimensions hs' = hs_dimensions hs)"
  proof
    assume ok: "est_ok e"
    from update_ok [OF ok, of obs t] obtain hs e' where
      u: "HealthStateEstimator_update e obs t = Inr (hs, e')"
      and ok': "est_ok e'" and cfg: "est_config e' = est_config e"
      and lut: "est_lastUpdateTime e' = Some t"
      and dm: "dom (hs_dimensions hs) = dc_name ` set (hsc_dimensions (est_config e))"
      and sy: "\<forall>n. synced t (est_cells e') (hs_dimensions hs) n"
      by blast
    from predict_ok [OF ok', of t] obtain hs' where
      p: "HealthStateEstimator_predict e' t = Inr hs'"
      and pd: "\<forall>n. hs_dimensions hs' n =
              (if n \<in> dc_name ` set (hsc_dimensions (est_config e'))
               then Some (aggregate (CfCCell_predict (the (est_cells e' n)) t)) else None)"
      by blast
    have cur: "getCurrentState e' = Inr (Some hs')"
      by (simp add: getCurrentState_def lut p)
    have "hs_dimensions hs' n = hs_dimensions hs n" for n
    proof (cases "n \<in> dc_name ` set (hsc_dimensions (est_config e))")
      case False
      then have "hs_dimensions hs n = None" using dm by blast
      then show ?thesis using pd False cfg by simp
    next
      case True
      then obtain v where v: "hs_dimensions hs n = Some v" using dm by blast
      with sy [rule_format, of n] obtain c where
        c: "est_cells e' n = Some c" "cell_lastTimestamp c = Some t" "v = aggregate (cell_state c)"
        by (auto simp: synced_def)
      from True ok' cfg c(1) have "cell_ok c"
        by (auto simp: est_ok_def)
      then have "CfCCell_predict c t = cell_state c"
        by (rule CfCCell_predict_now [OF _ c(2)])
      then show ?thesis using pd True cfg c v by simp
    qed
    then have "hs_dimensions hs' = hs_dimensions hs" by (rule ext)
    then show "\<exists>hs e' hs'. HealthStateEstimator_update e obs t = Inr (hs, e') \<and>
         getCurrentState e' = Inr (Some hs') \<and>
         hs_dimensions hs' = hs_dimensions hs"
      using u cur by blast
  qed
qed

theorem C7_current_state_witness:
  "est_ok (HealthStateEstimator_new DEFAULT_HEALTH_STATE_CONFIG) \<and>
   (\<exists>hs e' hs'.
      HealthStateEstimator_update (HealthStateEstimator_new DEFAULT_HEALTH_STATE_CONFIG)
        [''cardiovascular'' \<mapsto> 1] 0 = Inr (hs, e') \<and>
      getCurrentState e' = Inr (Some hs') \<and>
      hs_dimensions hs' = hs_dimensions hs)"
  using C7_current_state_restates_update
    [of DEFAULT_HEALTH_STATE_CONFIG "HealthStateEstimator_new DEFAULT_HEALTH_STATE_CONFIG"
        "[''cardiovascular'' \<mapsto> 1]" 0]
    est_ok_new [OF config_ok_default]
  by blast

section \<open>HealthStateEstimator: confidence of a prediction before the last update\<close>

text \<open>
  C3 fails on the code.  The default estimator is updated at timestamp 10 (no observations)
  and then asked to predict at timestamp 0.  The cell of \<open>cardiovascular\<close> has all four time
  constants at 2007, and \<open>predict\<close> computes the confidence from the unclamped
  \<open>dt = 0 - 10\<close>: it is \<open>exp (10 / 2007)\<close>, which is above 1.  (The cell's own \<open>predict\<close>
  clamps its elapsed time at 0.)
\<close>

theorem C3_predict_before_last_update_confidence_above_one:
  "\<exists>hs e' hs'.
     HealthStateEstimator_update (HealthStateEstimator_new DEFAULT_HEALTH_STATE_CONFIG)
       Map.empty 10 = Inr (hs, e') \<and>
     HealthStateEstimator_predict e' 0 = Inr hs' \<and>
     hs_confidence hs' ''cardiovascular'' = Some (exp (10 / 2007)) \<and>
     1 < exp (10 / 2007 :: real)"
proof -
  let ?e = "HealthStateEstimator_new DEFAULT_HEALTH_STATE_CONFIG"
  let ?d = "\<lparr>dc_name = ''cardiovascular'', dc_tauMin = 60, dc_tauMax = 3600\<rparr>"
  have ok: "est_ok ?e" by (rule est_ok_new [OF config_ok_default])
  from update_ok [OF ok, of Map.empty 10] obtain hs e' where
    u: "HealthStateEstimator_update ?e Map.empty 10 = Inr (hs, e')"
    and ok': "est_ok e'" and cfg: "est_config e' = est_config ?e"
    and lut: "est_lastUpdateTime e' = Some 10"
    by blast
  have d: "?d \<in> set (hsc_dimensions (est_config e'))"
    by (simp add: cfg HealthStateEstimator_new_def DEFAULT_HEALTH_STATE_CONFIG_def)
  from predict_past_confidence [OF ok' lut _ _ d, of 0] obtain hs' c where
    p: "HealthStateEstimator_predict e' 0 = Inr hs'"
    and cf: "hs_confidence hs' ''cardiovascular'' = Some (exp (- (0 - 10) / avgTau (cell_tau c)))"
    and c: "est_cells e' ''cardiovascular'' = Some c"
    by auto
  from default_update_cardio_cell [OF u] c have "cell_tau c = [2007, 2007, 2007, 2007]"
    by (simp add: cardio_tau)
  then have cf': "hs_confidence hs' ''cardiovascular'' = Some (exp (10 / 2007))"
    using cf by (simp add: avgTau_cardio)
  have "1 < exp (10 / 2007 :: real)" by simp
  then show ?thesis using u p cf' by blast
qed

section \<open>Intervention planner: the score of an action\<close>

lemma foldl_effect_step:
  "foldl (effect_step gap) (b, w) es =
     (b + (\<Sum>e\<leftarrow>es. effect_contribution gap e), w + (\<Sum>e\<leftarrow>es. ef_confidence e))"
proof (induction es arbitrary: b w)
  case Nil
  then show ?case by simp
next
  case (Cons e es)
  have "effect_step gap (b, w) e = (b + effect_contribution gap e, w + ef_confidence e)"
    by (simp add: effect_step_def effect_contribution_def Let_def mult.commute)
  then show ?case by (simp add: Cons.IH add.assoc)
qed

text \<open>
  C9 (as the code has it).  For an action, each effect contributes to the benefit:
  \<open>min(|gap|, |magnitude|) * confidence\<close> when gap and magnitude in the effect's dimension
  are both positive or both negative; otherwise \<open>- 0.1 * |magnitude| * confidence\<close> when
  \<open>|magnitude| > 2 * |gap|\<close>; otherwise nothing.  The benefit is divided by the total
  confidence of the effects when that total is positive, \<open>lambda\<close> and \<open>costWeight * cost\<close>
  are subtracted, and the result is clamped below at 0.
\<close>

theorem C9_score_closed_form:
  "action_score cfg gap action =
     (let benefit = (\<Sum>e\<leftarrow>ac_effects action. effect_contribution gap e);
          totalWeight = (\<Sum>e\<leftarrow>ac_effects action. ef_confidence e);
          normalized = (if totalWeight > 0 then benefit / totalWeight else benefit)
      in max 0 (normalized - pc_lambda cfg - pc_costWeight cfg * ac_cost action)) \<and>
   0 \<le> action_score cfg gap action"
  by (simp add: action_score_def foldl_effect_step Let_def)

lemmas plan_unfold =
  selectedActions_def scoreActions_def availableActions_def calculateGap_def
  set_in_order_def lookup_or_zero_def js_or_def action_score_def effect_step_def js_slice0_def
  Let_def PlannerConfig_merge_def DEFAULT_PLANNER_CONFIG_def

text \<open>
  C9 as stated fails: the overshoot penalty is not applied to an effect whose sign matches
  the gap.  With the default \<open>lambda = 0.1\<close> and \<open>costWeight = 0.3\<close>, a gap of 0.3 in \<open>energy\<close>
  and an action of cost 0.1 whose one effect is \<open>energy\<close> +1 with confidence 1: the signs
  match and \<open>1 > 2 * 0.3\<close>.  The code scores \<open>0.3 - 0.1 - 0.03 = 0.17\<close>; with the penalty
  also subtracted the score would be \<open>(0.3 - 0.1) - 0.1 - 0.03 = 0.07\<close>.
\<close>

theorem C9_matching_sign_no_penalty_counterexample:
  "let cfg = PlannerConfig_merge None None None
               (Some [\<lparr>ac_id = ''boost'', ac_name = ''boost'', ac_category = ''recovery'',
                        ac_cost = 1/10, ac_duration = 10,
                        ac_effects = [\<lparr>ef_dimension = ''energy'', ef_magnitude = 1,
                                       ef_confidence = 1, ef_timeToEffect = 0\<rparr>]\<rparr>]);
       gap = calculateGap [(''energy'', 0)] [(''energy'', 3/10)];
       action = hd (pc_actions cfg)
   in lookup_or_zero gap ''energy'' = 3/10 \<and>
      action_score cfg gap action = 17/100 \<and>
      spec_action_score cfg gap action = 7/100 \<and>
      action_score cfg gap action \<noteq> spec_action_score cfg gap action"
  by (simp add: plan_unfold spec_action_score_def spec_effect_contribution_def)

section \<open>Intervention planner: sparsity weight and number of actions\<close>

lemma action_score_mono:
  assumes "pc_lambda cfg1 \<le> pc_lambda cfg2" "pc_costWeight cfg1 = pc_costWeight cfg2"
  shows "action_score cfg2 gap a \<le> action_score cfg1 gap a"
proof -
  obtain b w where bw: "foldl (effect_step gap) (0, 0) (ac_effects a) = (b, w)"
    by (cases "foldl (effect_step gap) (0, 0) (ac_effects a)")
  define nb where "nb = (if w > 0 then b / w else b)"
  have "action_score cfg2 gap a = max 0 (nb - pc_lambda cfg2 - pc_costWeight cfg2 * ac_cost a)"
    "action_score cfg1 gap a = max 0 (nb - pc_lambda cfg1 - pc_costWeight cfg1 * ac_cost a)"
    by (simp_all add: action_score_def bw nb_def Let_def)
  then show ?thesis using assms by (simp add: max_def)
qed

lemma score_loop_count_mono:
  assumes "pc_lambda cfg1 \<le> pc_lambda cfg2" "pc_costWeight cfg1 = pc_costWeight cfg2"
  shows "length (filter (\<lambda>as. snd as > 1/10) (score_loop cfg2 gap mc actions))
           \<le> length (filter (\<lambda>as. snd as > 1/10) (score_loop cfg1 gap mc actions))"
proof (induction actions)
  case Nil
  then show ?case by simp
next
  case (Cons a actions)
  from action_score_mono [OF assms, of gap a] Cons.IH show ?case by auto
qed

lemma js_slice0_length:
  "length (js_slice0 m xs) =
     (if m < 0 then nat (max (int (length xs) + m) 0) else min (nat m) (length xs))"
  by (auto simp: js_slice0_def)

lemma js_slice0_length_mono:
  assumes "length xs \<le> length ys"
  shows "length (js_slice0 m xs) \<le> length (js_slice0 m ys)"
  using assms by (auto simp: js_slice0_length)

lemma selectedActions_length:
  "length (selectedActions cfg gap cons) =
     length (js_slice0 (pc_maxActions cfg)
       (filter (\<lambda>as. snd as > 1/10)
          (score_loop cfg gap (case cons of None \<Rightarrow> None | Some c \<Rightarrow> cn_maxCost c)
             (availableActions cfg cons))))"
proof -
  have "length (filter P (sort_key f xs)) = length (filter P xs)"
    for P and f :: "Action \<times> real \<Rightarrow> real" and xs
    by (simp add: filter_sort)
  then show ?thesis
    by (simp add: selectedActions_def scoreActions_def Let_def js_slice0_length)
qed

lemma plan_loop_length:
  "plan_loop dims sel i (pg, planned, expl) = Inr (pg', planned', expl') \<Longrightarrow>
     length planned' = length planned + length sel"
proof (induction sel arbitrary: i pg planned expl)
  case Nil
  then show ?case by simp
next
  case (Cons x sel)
  obtain action score where x: "x = (action, score)" by (cases x)
  from Cons.prems obtain me where me: "mainEffect (ac_effects action) = Inr me"
    by (auto simp: x Let_def split: sum.splits)
  define pg1 where
    "pg1 = map (\<lambda>(dimc, g). (dimc, g - lookup_or_zero (calculateImpact action dims) dimc)) pg"
  define pl1 where
    "pl1 = planned @ [\<lparr>pa_action = action, pa_weight = score, pa_priority = i + 1,
                        pa_expectedImpact = calculateImpact action dims\<rparr>]"
  define ex1 where
    "ex1 = expl @ [\<lparr>ex_name = ac_name action, ex_dimension = ef_dimension me,
                     ex_magnitude = ef_magnitude me\<rparr>]"
  from Cons.prems have r: "plan_loop dims sel (i + 1) (pg1, pl1, ex1) = Inr (pg', planned', expl')"
    by (simp add: x me Let_def pg1_def pl1_def ex1_def)
  from Cons.IH [OF r] show ?case by (simp add: pl1_def)
qed

lemma plan_activeCount:
  assumes "plan cfg cur tgt cons = Inr p"
  shows "ip_activeCount p = length (selectedActions cfg (calculateGap cur tgt) cons)"
proof -
  from assms obtain pg planned expl where
    r: "plan_loop (map fst (calculateGap cur tgt)) (selectedActions cfg (calculateGap cur tgt) cons) 0
          (calculateGap cur tgt, [], []) = Inr (pg, planned, expl)"
    and p: "ip_activeCount p = length planned"
    by (auto simp: plan_def Let_def split: sum.splits)
  from plan_loop_length [OF r] p show ?thesis by simp
qed

lemma score_loop_actions: "fst ` set (score_loop cfg gap mc actions) \<subseteq> set actions"
  by (induction actions) auto

lemma availableActions_subset: "set (availableActions cfg cons) \<subseteq> set (pc_actions cfg)"
  by (auto simp: availableActions_def Let_def split: option.splits if_splits)

lemma js_slice0_subset: "set (js_slice0 m xs) \<subseteq> set xs"
  by (auto simp: js_slice0_def dest: in_set_takeD)

lemma selectedActions_actions:
  "fst ` set (selectedActions cfg gap cons) \<subseteq> set (pc_actions cfg)"
proof -
  have "set (selectedActions cfg gap cons) \<subseteq>
          set (score_loop cfg gap (case cons of None \<Rightarrow> None | Some c \<Rightarrow> cn_maxCost c)
                 (availableActions cfg cons))"
    using js_slice0_subset [of "pc_maxActions cfg"]
    by (fastforce simp: selectedActions_def scoreActions_def Let_def)
  then show ?thesis
    using score_loop_actions availableActions_subset by fastforce
qed

lemma plan_loop_total:
  assumes "\<forall>x \<in> set sel. ac_effects (fst x) \<noteq> []"
  shows "\<exists>r. plan_loop dims sel i acc = Inr r"
  using assms
proof (induction sel arbitrary: i acc)
  case Nil
  show ?case by (cases acc rule: prod_cases3) simp
next
  case (Cons x sel)
  obtain action score where x: "x = (action, score)" by (cases x)
  obtain pg planned expl where acc: "acc = (pg, planned, expl)"
    using prod_cases3 by blast
  from Cons.prems x obtain e es where e: "ac_effects action = e # es"
    by (cases "ac_effects action") auto
  from Cons.prems have "\<forall>x \<in> set sel. ac_effects (fst x) \<noteq> []" by simp
  from Cons.IH [OF this] show ?case
    by (simp add: x acc e Let_def)
qed

lemma plan_total:
  assumes "\<forall>a \<in> set (pc_actions cfg). ac_effects a \<noteq> []"
  shows "\<exists>p. plan cfg cur tgt cons = Inr p"
proof -
  let ?gap = "calculateGap cur tgt"
  have "\<forall>x \<in> set (selectedActions cfg ?gap cons). ac_effects (fst x) \<noteq> []"
    using assms selectedActions_actions [of cfg ?gap cons] by auto
  from plan_loop_total [OF this, of "map fst ?gap" 0 "(?gap, [], [])"]
  obtain r where "plan_loop (map fst ?gap) (selectedActions cfg ?gap cons) 0 (?gap, [], []) = Inr r"
    by blast
  then show ?thesis
    by (cases r) (simp add: plan_def Let_def)
qed

text \<open>
  C8.  Two planners differ only in \<open>lambda\<close>, with \<open>lambda1 \<le> lambda2\<close>, and plan for the same
  current state, target state and constraints.  Whenever both calls return a plan, the
  plan for \<open>lambda2\<close> has at most as many actions as the plan for \<open>lambda1\<close>.  (A call
  returns a plan unless a selected action has no effects, see \<open>plan_total\<close>.)
\<close>

theorem C8_larger_lambda_no_more_actions:
  assumes "lambda1 \<le> lambda2"
    and "plan (cfg\<lparr>pc_lambda := lambda1\<rparr>) currentState targetState constraints = Inr p1"
    and "plan (cfg\<lparr>pc_lambda := lambda2\<rparr>) currentState targetState constraints = Inr p2"
  shows "ip_activeCount p2 \<le> ip_activeCount p1"
proof -
  let ?gap = "calculateGap currentState targetState"
  let ?mc = "case constraints of None \<Rightarrow> None | Some c \<Rightarrow> cn_maxCost c"
  have av: "availableActions (cfg\<lparr>pc_lambda := lambda2\<rparr>) constraints =
            availableActions (cfg\<lparr>pc_lambda := lambda1\<rparr>) constraints"
    by (simp add: availableActions_def)
  have "length (filter (\<lambda>as. snd as > 1/10)
          (score_loop (cfg\<lparr>pc_lambda := lambda2\<rparr>) ?gap ?mc
             (availableActions (cfg\<lparr>pc_lambda := lambda1\<rparr>) constraints)))
        \<le> length (filter (\<lambda>as. snd as > 1/10)
          (score_loop (cfg\<lparr>pc_lambda := lambda1\<rparr>) ?gap ?mc
             (availableActions (cfg\<lparr>pc_lambda := lambda1\<rparr>) constraints)))"
    by (rule score_loop_count_mono) (use assms(1) in simp_all)
  then have "length (selectedActions (cfg\<lparr>pc_lambda := lambda2\<rparr>) ?gap constraints)
        \<le> length (selectedActions (cfg\<lparr>pc_lambda := lambda1\<rparr>) ?gap constraints)"
    unfolding selectedActions_length av
    by (simp add: js_slice0_length_mono)
  then show ?thesis
    using plan_activeCount [OF assms(2)] plan_activeCount [OF assms(3)] by simp
qed

lemma two_actions_selected_low_lambda:
  "length (selectedActions ((PlannerConfig_merge None None (Some 0)
      (Some [\<lparr>ac_id = ''rest'', ac_name = ''rest'', ac_category = ''recovery'', ac_cost = 0,
           ac_duration = 10,
           ac_effects = [\<lparr>ef_dimension = ''energy'', ef_magnitude = 1, ef_confidence = 1,
                          ef_timeToEffect = 0\<rparr>]\<rparr>,
         \<lparr>ac_id = ''breathe'', ac_name = ''breathe'', ac_category = ''stress'', ac_cost = 0,
           ac_duration = 5,
           ac_effects = [\<lparr>ef_dimension = ''stress'', ef_magnitude = - (1/2), ef_confidence = 1,
                          ef_timeToEffect = 0\<rparr>]\<rparr>]))\<lparr>pc_lambda := 1/10\<rparr>)
     (calculateGap [(''energy'', 0), (''stress'', 1)] [(''energy'', 1), (''stress'', 0)]) None) = 2"
  by (simp add: plan_unfold)

lemma one_action_selected_high_lambda:
  "length (selectedActions ((PlannerConfig_merge None None (Some 0)
      (Some [\<lparr>ac_id = ''rest'', ac_name = ''rest'', ac_category = ''recovery'', ac_cost = 0,
           ac_duration = 10,
           ac_effects = [\<lparr>ef_dimension = ''energy'', ef_magnitude = 1, ef_confidence = 1,
                          ef_timeToEffect = 0\<rparr>]\<rparr>,
         \<lparr>ac_id = ''breathe'', ac_name = ''breathe'', ac_category = ''stress'', ac_cost = 0,
           ac_duration = 5,
           ac_effects = [\<lparr>ef_dimension = ''stress'', ef_magnitude = - (1/2), ef_confidence = 1,
                          ef_timeToEffect = 0\<rparr>]\<rparr>]))\<lparr>pc_lambda := 45/100\<rparr>)
     (calculateGap [(''energy'', 0), (''stress'', 1)] [(''energy'', 1), (''stress'', 0)]) None) = 1"
  by (simp add: plan_unfold)

theorem C8_larger_lambda_witness:
  "(1/10 :: real) \<le> 45/100 \<and>
   (\<exists>p1 p2.
      plan ((PlannerConfig_merge None None (Some 0)
      (Some [\<lparr>ac_id = ''rest'', ac_name = ''rest'', ac_category = ''recovery'', ac_cost = 0,
           ac_duration = 10,
           ac_effects = [\<lparr>ef_dimension = ''energy'', ef_magnitude = 1, ef_confidence = 1,
                          ef_timeToEffect = 0\<rparr>]\<rparr>,
         \<lparr>ac_id = ''breathe'', ac_name = ''breathe'', ac_category = ''stress'', ac_cost = 0,
           ac_duration = 5,
           ac_effects = [\<lparr>ef_dimension = ''stress'', ef_magnitude = - (1/2), ef_confidence = 1,
                          ef_timeToEffect = 0\<rparr>]\<rparr>]))\<lparr>pc_lambda := 1/10\<rparr>)
        [(''energy'', 0), (''stress'', 1)] [(''energy'', 1), (''stress'', 0)] None = Inr p1 \<and>
      plan ((PlannerConfig_merge None None (Some 0)
      (Some [\<lparr>ac_id = ''rest'', ac_name = ''rest'', ac_category = ''recovery'', ac_cost = 0,
           ac_duration = 10,
           ac_effects = [\<lparr>ef_dimension = ''energy'', ef_magnitude = 1, ef_confidence = 1,
                          ef_timeToEffect = 0\<rparr>]\<rparr>,
         \<lparr>ac_id = ''breathe'', ac_name = ''breathe'', ac_category = ''stress'', ac_cost = 0,
           ac_duration = 5,
           ac_effects = [\<lparr>ef_dimension = ''stress'', ef_magnitude = - (1/2), ef_confidence = 1,
                          ef_timeToEffect = 0\<rparr>]\<rparr>]))\<lparr>pc_lambda := 45/100\<rparr>)
        [(''energy'', 0), (''stress'', 1)] [(''energy'', 1), (''stress'', 0)] None = Inr p2 \<and>
      ip_activeCount p1 = 2 \<and> ip_activeCount p2 = 1 \<and>
      ip_activeCount p2 \<le> ip_activeCount p1)"
proof -
  let ?cfg = "(PlannerConfig_merge None None (Some 0)
      (Some [\<lparr>ac_id = ''rest'', ac_name = ''rest'', ac_category = ''recovery'', ac_cost = 0,
           ac_duration = 10,
           ac_effects = [\<lparr>ef_dimension = ''energy'', ef_magnitude = 1, ef_confidence = 1,
                          ef_timeToEffect = 0\<rparr>]\<rparr>,
         \<lparr>ac_id = ''breathe'', ac_name = ''breathe'', ac_category = ''stress'', ac_cost = 0,
           ac_duration = 5,
           ac_effects = [\<lparr>ef_dimension = ''stress'', ef_magnitude = - (1/2), ef_confidence = 1,
                          ef_timeToEffect = 0\<rparr>]\<rparr>]))"
  let ?cur = "[(''energy'', 0), (''stress'', 1 :: real)]"
  let ?tgt = "[(''energy'', 1), (''stress'', 0 :: real)]"
  have le: "(1/10 :: real) \<le> 45/100" by simp
  have ne: "\<forall>a \<in> set (pc_actions (?cfg\<lparr>pc_lambda := l\<rparr>)). ac_effects a \<noteq> []" for l
    by (simp add: PlannerConfig_merge_def)
  from plan_total [OF ne, of "1/10" ?cur ?tgt None] obtain p1 where
    p1: "plan (?cfg\<lparr>pc_lambda := 1/10\<rparr>) ?cur ?tgt None = Inr p1" by blast
  from plan_total [OF ne, of "45/100" ?cur ?tgt None] obtain p2 where
    p2: "plan (?cfg\<lparr>pc_lambda := 45/100\<rparr>) ?cur ?tgt None = Inr p2" by blast
  have n1: "ip_activeCount p1 = 2"
    using plan_activeCount [OF p1] two_actions_selected_low_lambda by simp
  have n2: "ip_activeCount p2 = 1"
    using plan_activeCount [OF p2] one_action_selected_high_lambda by simp
  from C8_larger_lambda_no_more_actions [OF le p1 p2] le p1 p2 n1 n2 show ?thesis by blast
qed

end
